theory Spec2Isabelle
  imports Main "HOL-Library.Sublist"
begin

section \<open>EOM Scraper: the state store\<close>

text \<open>
  A shallow embedding of \<^verbatim>\<open>src/storage/state_manager.py\<close> and of the orchestration in
  \<^verbatim>\<open>src/main.py\<close>.

  Time. A \<^verbatim>\<open>datetime\<close> is the number of microseconds since the epoch (UTC); a
  \<^verbatim>\<open>timedelta\<close> is a difference of such numbers.

  Timestamp texts. The state keeps its two timestamps as strings. \<open>Iso t\<close> is a text that
  \<^verbatim>\<open>datetime.fromisoformat(text.replace('Z', '+00:00'))\<close> reads as the instant \<open>t\<close>, in
  particular the text \<^verbatim>\<open>t.isoformat()\<close>; \<open>Other s\<close> is any other text \<open>s\<close>: either
  the empty text, or one that \<^verbatim>\<open>fromisoformat\<close> rejects with \<^verbatim>\<open>ValueError\<close>. An \<open>Iso\<close>
  text is never empty.
\<close>

type_synonym datetime = int

datatype timestamp_text = Iso datetime | Other string

definition isoformat :: "datetime \<Rightarrow> timestamp_text" where
  "isoformat t = Iso t"

definition fromisoformat :: "timestamp_text \<Rightarrow> datetime option" where
  "fromisoformat txt = (case txt of Iso t \<Rightarrow> Some t | Other s \<Rightarrow> None)"

text \<open>Python's truth value of a string: non-empty.\<close>

definition truthy_text :: "timestamp_text \<Rightarrow> bool" where
  "truthy_text txt = (case txt of Iso t \<Rightarrow> True | Other s \<Rightarrow> s \<noteq> [])"

definition hours :: "int \<Rightarrow> int" where
  "hours n = n * 3600000000"

definition seconds :: "nat \<Rightarrow> nat" where
  "seconds n = n * 1000000"

subsection \<open>\<^verbatim>\<open>ScraperState\<close>\<close>

record ScraperState =
  last_check_timestamp :: timestamp_text
  processed_post_ids :: "int set"
  total_posts_processed :: int
  last_successful_run :: timestamp_text
  errors_count :: int

text \<open>
  The argument of \<^verbatim>\<open>ScraperState.from_dict\<close>: a decoded JSON object. Each field is
  \<open>None\<close> when the key is absent, and holds a value of the type the dataclass annotates
  otherwise (values of other JSON types are outside this typed model).
\<close>

record state_dict =
  d_last_check_timestamp :: "timestamp_text option"
  d_processed_post_ids :: "int list option"
  d_total_posts_processed :: "int option"
  d_last_successful_run :: "timestamp_text option"
  d_errors_count :: "int option"

text \<open>\<^verbatim>\<open>data.get(key, default)\<close>\<close>

definition dict_get :: "'a option \<Rightarrow> 'a \<Rightarrow> 'a" where
  "dict_get v dflt = (case v of Some x \<Rightarrow> x | None \<Rightarrow> dflt)"

definition from_dict :: "state_dict \<Rightarrow> ScraperState" where
  "from_dict data =
     \<lparr> last_check_timestamp = dict_get (d_last_check_timestamp data) (Other []),
       processed_post_ids = set (dict_get (d_processed_post_ids data) []),
       total_posts_processed = dict_get (d_total_posts_processed data) 0,
       last_successful_run = dict_get (d_last_successful_run data) (Other []),
       errors_count = dict_get (d_errors_count data) 0 \<rparr>"

subsection \<open>\<^verbatim>\<open>StateManager\<close>\<close>

text \<open>
  \<^verbatim>\<open>self.state\<close> is \<^verbatim>\<open>Optional[ScraperState]\<close>; a dataclass instance is always truthy,
  so \<^verbatim>\<open>if self.state:\<close> tests for \<^verbatim>\<open>None\<close>.
\<close>

record StateManager =
  state :: "ScraperState option"

text \<open>What \<^verbatim>\<open>open\<close> and \<^verbatim>\<open>json.load\<close> find at the path of the state file.\<close>

datatype json_document =
    JObject state_dict
  | JArray "int list"
  | JString string
  | JNumber int
  | JBool bool
  | JNull

datatype file_content =
    NoFile
  | NotUtf8
  | InvalidJson
  | Json json_document

datatype py_error = AttributeError | UnicodeDecodeError | OtherException

definition create_initial_state :: "datetime \<Rightarrow> ScraperState" where
  "create_initial_state now =
     \<lparr> last_check_timestamp = isoformat now,
       processed_post_ids = {},
       total_posts_processed = 0,
       last_successful_run = Other [],
       errors_count = 0 \<rparr>"

text \<open>
  \<^verbatim>\<open>load_state\<close>. Only \<^verbatim>\<open>json.JSONDecodeError\<close> and \<^verbatim>\<open>KeyError\<close> are caught. Reading bytes
  that are not UTF-8 raises \<^verbatim>\<open>UnicodeDecodeError\<close> inside \<^verbatim>\<open>json.load\<close>, and
  \<^verbatim>\<open>from_dict\<close> calls \<^verbatim>\<open>data.get\<close>, which a decoded value other than an object does not
  have (\<^verbatim>\<open>AttributeError\<close>): both leave \<^verbatim>\<open>load_state\<close> as exceptions, \<open>Inl\<close> here.
\<close>

definition load_state :: "file_content \<Rightarrow> datetime \<Rightarrow> StateManager \<Rightarrow> py_error + StateManager" where
  "load_state file now sm =
     (case file of
        NoFile \<Rightarrow> Inr (sm\<lparr>state := Some (create_initial_state now)\<rparr>)
      | NotUtf8 \<Rightarrow> Inl UnicodeDecodeError
      | InvalidJson \<Rightarrow> Inr (sm\<lparr>state := Some (create_initial_state now)\<rparr>)
      | Json doc \<Rightarrow>
          (case doc of
             JObject data \<Rightarrow> Inr (sm\<lparr>state := Some (from_dict data)\<rparr>)
           | _ \<Rightarrow> Inl AttributeError))"

definition update_last_check :: "datetime \<Rightarrow> StateManager \<Rightarrow> StateManager" where
  "update_last_check timestamp sm =
     (case state sm of
        Some s \<Rightarrow> sm\<lparr>state := Some (s\<lparr>last_check_timestamp := isoformat timestamp\<rparr>)\<rparr>
      | None \<Rightarrow> sm)"

definition mark_post_processed :: "int \<Rightarrow> StateManager \<Rightarrow> StateManager" where
  "mark_post_processed post_id sm =
     (case state sm of
        Some s \<Rightarrow>
          (if post_id \<notin> processed_post_ids s
           then sm\<lparr>state := Some (s\<lparr>processed_post_ids := insert post_id (processed_post_ids s),
                                     total_posts_processed := total_posts_processed s + 1\<rparr>)\<rparr>
           else sm)
      | None \<Rightarrow> sm)"

definition is_post_processed :: "int \<Rightarrow> StateManager \<Rightarrow> bool" where
  "is_post_processed post_id sm =
     (case state sm of
        Some s \<Rightarrow> post_id \<in> processed_post_ids s
      | None \<Rightarrow> False)"

definition mark_successful_run :: "datetime \<Rightarrow> StateManager \<Rightarrow> StateManager" where
  "mark_successful_run now sm =
     (case state sm of
        Some s \<Rightarrow> sm\<lparr>state := Some (s\<lparr>last_successful_run := isoformat now\<rparr>)\<rparr>
      | None \<Rightarrow> sm)"

definition increment_error_count :: "StateManager \<Rightarrow> StateManager" where
  "increment_error_count sm =
     (case state sm of
        Some s \<Rightarrow> sm\<lparr>state := Some (s\<lparr>errors_count := errors_count s + 1\<rparr>)\<rparr>
      | None \<Rightarrow> sm)"

text \<open>
  \<^verbatim>\<open>get_last_check_datetime\<close>: the stored text when it is non-empty and parses, else one
  hour before the current time.
\<close>

definition get_last_check_datetime :: "datetime \<Rightarrow> StateManager \<Rightarrow> datetime" where
  "get_last_check_datetime now sm =
     (case state sm of
        Some s \<Rightarrow>
          (if truthy_text (last_check_timestamp s)
           then (case fromisoformat (last_check_timestamp s) of
                   Some t \<Rightarrow> t
                 | None \<Rightarrow> now - hours 1)
           else now - hours 1)
      | None \<Rightarrow> now - hours 1)"

text \<open>
  Python's slice \<^verbatim>\<open>xs[:k]\<close>: the first \<open>k\<close> elements, and for a negative \<open>k\<close> all but the
  last \<open>-k\<close>.
\<close>

definition py_prefix :: "int \<Rightarrow> 'a list \<Rightarrow> 'a list" where
  "py_prefix k xs = (if 0 \<le> k then take (nat k) xs else take (length xs - nat (- k)) xs)"

text \<open>
  \<^verbatim>\<open>cleanup_old_processed_ids\<close>. The guard \<^verbatim>\<open>len(ids) > keep_recent * 1.5\<close> compares an
  integer with a float; \<open>2 * len > 3 * keep_recent\<close> is the same comparison as long as
  \<open>keep_recent * 1.5\<close> is exact in double precision (below \<open>2 ^ 51\<close> in absolute value).
  \<^verbatim>\<open>sorted(ids, reverse=True)\<close> is the descending list of the set.
\<close>

definition cleanup_old_processed_ids :: "int \<Rightarrow> StateManager \<Rightarrow> StateManager" where
  "cleanup_old_processed_ids keep_recent sm =
     (case state sm of
        Some s \<Rightarrow>
          (if 2 * int (card (processed_post_ids s)) > 3 * keep_recent
           then (let sorted_ids = rev (sorted_list_of_set (processed_post_ids s))
                 in sm\<lparr>state := Some (s\<lparr>processed_post_ids := set (py_prefix keep_recent sorted_ids)\<rparr>)\<rparr>)
           else sm)
      | None \<Rightarrow> sm)"

section \<open>EOM Scraper: the orchestrator\<close>

subsection \<open>Configuration\<close>

text \<open>
  The fields of \<^verbatim>\<open>EOMConfig\<close> and \<^verbatim>\<open>AppConfig\<close> that the run reads. \<open>request_delay\<close>
  is in microseconds here (a non-negative float of seconds in the source).
\<close>

record EOMConfig =
  username :: "string option"
  password :: "string option"

record AppConfig =
  dry_run :: bool
  process_open_content :: bool
  process_premium_content :: bool
  request_delay :: nat

text \<open>\<^verbatim>\<open>not s\<close> for an \<^verbatim>\<open>Optional[str]\<close>: \<^verbatim>\<open>None\<close> or the empty string.\<close>

definition py_not_str :: "string option \<Rightarrow> bool" where
  "py_not_str v = (case v of None \<Rightarrow> True | Some s \<Rightarrow> s = [])"

text \<open>\<^verbatim>\<open>EOMAPIClient.authenticate\<close> returns \<^verbatim>\<open>False\<close> on both of its paths.\<close>

definition authenticate :: "EOMConfig \<Rightarrow> bool" where
  "authenticate config =
     (if py_not_str (username config) \<or> py_not_str (password config) then False else False)"

subsection \<open>Feed items\<close>

text \<open>
  A post of the feed, with the fields that decide the control flow: \<open>post_id\<close> is
  \<^verbatim>\<open>post.get('id')\<close> (\<open>None\<close> when the key is absent or \<^verbatim>\<open>null\<close>), \<open>post_content\<close> is
  \<^verbatim>\<open>post.get('content', {}).get('rendered', '')\<close>, \<open>post_title\<close> the rendered title.
\<close>

record raw_post =
  post_id :: "int option"
  post_title :: string
  post_content :: string

datatype access_type = Open_access | Premium_access

record ArticleMetadata =
  m_id :: "int option"
  m_title :: string
  m_content_raw :: string
  m_access_type :: access_type

definition classify_post_access :: "raw_post \<Rightarrow> access_type" where
  "classify_post_access post_data =
     (if sublist ''mepr-unauthorized-excerpt'' (post_content post_data)
      then Premium_access else Open_access)"

definition extract_post_metadata :: "raw_post \<Rightarrow> ArticleMetadata" where
  "extract_post_metadata post_data =
     \<lparr> m_id = post_id post_data,
       m_title = post_title post_data,
       m_content_raw = post_content post_data,
       m_access_type = classify_post_access post_data \<rparr>"

definition should_process_article :: "AppConfig \<Rightarrow> ArticleMetadata \<Rightarrow> bool" where
  "should_process_article app metadata =
     (if m_access_type metadata = Open_access \<and> process_open_content app then True
      else if m_access_type metadata = Premium_access \<and> process_premium_content app then True
      else False)"

text \<open>\<^verbatim>\<open>not post_id\<close>: \<^verbatim>\<open>None\<close> and the integer 0 are both falsy.\<close>

definition py_not_id :: "int option \<Rightarrow> bool" where
  "py_not_id v = (case v of None \<Rightarrow> True | Some n \<Rightarrow> n = 0)"

subsection \<open>The scraper and its environment\<close>

text \<open>
  The lines the run writes to its log that the properties below observe; every line
  carries the clock reading at which it is written (\<^verbatim>\<open>%(asctime)s\<close>). \<open>StateSaved s\<close>
  stands for the write of \<open>s\<close> to the state file by \<^verbatim>\<open>save_state\<close>.
\<close>

datatype log_line =
    ConnectionTestFailed
  | SearchingSince datetime
  | NoNewArticles
  | ArticleSent "int option"
  | ArticleNotSent "int option"
  | ArticleError "int option"
  | Completed nat nat
  | CriticalError py_error
  | StateSaved ScraperState
  | SaveFailed

text \<open>
  The \<^verbatim>\<open>EOMScraper\<close> object, together with the wall clock that \<^verbatim>\<open>datetime.now\<close> reads
  and the log written so far (oldest line first).
\<close>

record EOMScraper =
  eom_config :: EOMConfig
  app_config :: AppConfig
  state_manager :: StateManager
  clock :: datetime
  log_lines :: "(datetime \<times> log_line) list"

text \<open>
  What the outside world does during one run. \<open>fetch\<close> is the outcome of
  \<^verbatim>\<open>session.get\<close> followed by \<^verbatim>\<open>response.json()\<close>: a response with its status and decoded
  body, a \<^verbatim>\<open>requests.exceptions.RequestException\<close>, or any other exception. \<open>item i\<close> is
  what happens to the \<open>i\<close>-th article of the delivery loop (counted from 1 as
  \<^verbatim>\<open>enumerate(articles, 1)\<close> does): content processing raises, or the SMTP send returns
  a boolean. The \<open>elapsed\<close> fields are the durations of the blocking calls, in
  microseconds.
\<close>

datatype http_outcome =
    Response nat "raw_post list"
  | RequestException
  | UnexpectedException

datatype item_outcome = ProcessingRaises | SendResult bool

record run_env =
  smtp_ok :: bool
  smtp_elapsed :: nat
  fetch :: http_outcome
  http_elapsed :: nat
  item :: "nat \<Rightarrow> item_outcome"
  item_elapsed :: "nat \<Rightarrow> nat"
  disk_ok :: bool

definition emit :: "log_line \<Rightarrow> EOMScraper \<Rightarrow> EOMScraper" where
  "emit l sc = sc\<lparr>log_lines := log_lines sc @ [(clock sc, l)]\<rparr>"

text \<open>Time passing: a blocking call, or \<^verbatim>\<open>time.sleep\<close>.\<close>

definition elapse :: "nat \<Rightarrow> EOMScraper \<Rightarrow> EOMScraper" where
  "elapse d sc = sc\<lparr>clock := clock sc + int d\<rparr>"

definition on_state_manager :: "(StateManager \<Rightarrow> StateManager) \<Rightarrow> EOMScraper \<Rightarrow> EOMScraper" where
  "on_state_manager f sc = sc\<lparr>state_manager := f (state_manager sc)\<rparr>"

text \<open>\<^verbatim>\<open>StateManager.save_state\<close>: its own \<^verbatim>\<open>try\<close> turns a failed write into \<^verbatim>\<open>False\<close>.\<close>

definition save_state :: "run_env \<Rightarrow> EOMScraper \<Rightarrow> bool \<times> EOMScraper" where
  "save_state env sc =
     (case state (state_manager sc) of
        None \<Rightarrow> (False, sc)
      | Some s \<Rightarrow>
          (if disk_ok env then (True, emit (StateSaved s) sc)
           else (False, emit SaveFailed sc)))"

text \<open>\<^verbatim>\<open>EmailSender.test_connection\<close>\<close>

definition test_connection :: "run_env \<Rightarrow> EOMScraper \<Rightarrow> bool \<times> EOMScraper" where
  "test_connection env sc =
     (if dry_run (app_config sc) then (True, sc)
      else (smtp_ok env, elapse (smtp_elapsed env) sc))"

text \<open>
  \<^verbatim>\<open>EmailSender.send_article_email\<close>, which catches every exception of the send itself:
  \<open>smtp_result\<close> is what the SMTP exchange gives.
\<close>

definition send_article_email :: "AppConfig \<Rightarrow> bool \<Rightarrow> bool" where
  "send_article_email app smtp_result = (if dry_run app then True else smtp_result)"

text \<open>
  \<^verbatim>\<open>EOMAPIClient._make_request\<close>: \<open>Inr None\<close> is the returned \<^verbatim>\<open>None\<close>, \<open>Inl\<close> an exception
  that the \<^verbatim>\<open>except requests.exceptions.RequestException\<close> clause does not catch.
\<close>

definition make_request :: "run_env \<Rightarrow> EOMScraper \<Rightarrow> (py_error + raw_post list option) \<times> EOMScraper" where
  "make_request env sc =
     (case fetch env of
        Response status_code body \<Rightarrow>
          (let sc1 = elapse (request_delay (app_config sc)) (elapse (http_elapsed env) sc)
           in if status_code = 200 then (Inr (Some body), sc1) else (Inr None, sc1))
      | RequestException \<Rightarrow> (Inr None, elapse (http_elapsed env) sc)
      | UnexpectedException \<Rightarrow> (Inl OtherException, elapse (http_elapsed env) sc))"

definition get_posts_since :: "datetime \<Rightarrow> run_env \<Rightarrow> EOMScraper \<Rightarrow> (py_error + raw_post list) \<times> EOMScraper" where
  "get_posts_since since_datetime env sc =
     (case make_request env (emit (SearchingSince since_datetime) sc) of
        (Inl e, sc1) \<Rightarrow> (Inl e, sc1)
      | (Inr None, sc1) \<Rightarrow> (Inr [], sc1)
      | (Inr (Some posts), sc1) \<Rightarrow> (Inr posts, sc1))"

text \<open>The loop of \<^verbatim>\<open>_get_new_articles\<close> over the raw posts.\<close>

fun new_articles_loop :: "EOMScraper \<Rightarrow> raw_post list \<Rightarrow> ArticleMetadata list" where
  "new_articles_loop sc [] = []"
| "new_articles_loop sc (post # rest) =
     (case post_id post of
        None \<Rightarrow> new_articles_loop sc rest
      | Some pid \<Rightarrow>
          (if py_not_id (Some pid) then new_articles_loop sc rest
           else if is_post_processed pid (state_manager sc) then new_articles_loop sc rest
           else (let metadata = extract_post_metadata post
                 in if \<not> should_process_article (app_config sc) metadata
                    then new_articles_loop sc rest
                    else metadata # new_articles_loop sc rest)))"

definition get_new_articles :: "run_env \<Rightarrow> EOMScraper \<Rightarrow> (py_error + ArticleMetadata list) \<times> EOMScraper" where
  "get_new_articles env sc =
     (let last_check = get_last_check_datetime (clock sc) (state_manager sc)
      in case get_posts_since last_check env sc of
           (Inl e, sc1) \<Rightarrow> (Inl e, sc1)
         | (Inr raw_posts, sc1) \<Rightarrow>
             (if raw_posts = [] then (Inr [], sc1)
              else (Inr (new_articles_loop sc1 raw_posts), sc1)))"

text \<open>
  One iteration of the loop of \<^verbatim>\<open>_process_articles\<close>: \<open>n\<close> is \<^verbatim>\<open>len(articles)\<close>,
  \<open>i\<close> the position of the article, \<open>cnt\<close> the running \<^verbatim>\<open>processed_count\<close>. An
  exception in content processing is caught per article and skips the pacing delay. An
  article without id never reaches this loop (lemma \<open>new_articles_loop_ids\<close>); for such
  an article the model leaves the id set alone.
\<close>

definition process_one_article :: "run_env \<Rightarrow> nat \<Rightarrow> nat \<Rightarrow> ArticleMetadata \<Rightarrow> nat \<Rightarrow> EOMScraper \<Rightarrow> nat \<times> EOMScraper" where
  "process_one_article env n i article cnt sc =
     (let sc1 = elapse (item_elapsed env i) sc
      in case item env i of
           ProcessingRaises \<Rightarrow> (cnt, emit (ArticleError (m_id article)) sc1)
         | SendResult smtp_result \<Rightarrow>
             (let (cnt2, sc2) =
                    (if send_article_email (app_config sc1) smtp_result
                     then (cnt + 1,
                           emit (ArticleSent (m_id article))
                             (case m_id article of
                                Some pid \<Rightarrow> on_state_manager (mark_post_processed pid) sc1
                              | None \<Rightarrow> sc1))
                     else (cnt, emit (ArticleNotSent (m_id article)) sc1))
              in (cnt2, if i < n then elapse (seconds 2) sc2 else sc2)))"

fun process_loop :: "run_env \<Rightarrow> nat \<Rightarrow> nat \<Rightarrow> ArticleMetadata list \<Rightarrow> nat \<Rightarrow> EOMScraper \<Rightarrow> nat \<times> EOMScraper" where
  "process_loop env n i [] cnt sc = (cnt, sc)"
| "process_loop env n i (article # rest) cnt sc =
     (case process_one_article env n i article cnt sc of
        (cnt2, sc2) \<Rightarrow> process_loop env n (i + 1) rest cnt2 sc2)"

definition process_articles :: "run_env \<Rightarrow> ArticleMetadata list \<Rightarrow> EOMScraper \<Rightarrow> nat \<times> EOMScraper" where
  "process_articles env articles sc = process_loop env (length articles) 1 articles 0 sc"

text \<open>
  \<^verbatim>\<open>EOMScraper.run\<close>, block by block. Lines 73 to 77: authentication when premium
  content is enabled.
\<close>

definition authenticate_step :: "EOMScraper \<Rightarrow> EOMScraper" where
  "authenticate_step sc =
     (if process_premium_content (app_config sc)
      then (if \<not> authenticate (eom_config sc)
            then sc\<lparr>app_config := (app_config sc)\<lparr>process_premium_content := False\<rparr>\<rparr>
            else sc)
      else sc)"

text \<open>Lines 82 to 86: no new articles.\<close>

definition finish_no_articles :: "run_env \<Rightarrow> EOMScraper \<Rightarrow> bool \<times> EOMScraper" where
  "finish_no_articles env sc =
     (let sc1 = emit NoNewArticles sc;
          sc2 = on_state_manager (mark_successful_run (clock sc1)) sc1
      in (True, snd (save_state env sc2)))"

text \<open>
  Lines 88 to 100: deliver, update the state when something was processed, save.
  \<^verbatim>\<open>cleanup_old_processed_ids()\<close> is called with its default ceiling of 1000.
\<close>

definition finish_articles :: "run_env \<Rightarrow> ArticleMetadata list \<Rightarrow> EOMScraper \<Rightarrow> bool \<times> EOMScraper" where
  "finish_articles env new_articles sc =
     (case process_articles env new_articles sc of
        (processed_count, sc1) \<Rightarrow>
          (let sc2 =
                 (if processed_count > 0
                  then on_state_manager (cleanup_old_processed_ids 1000)
                         (on_state_manager (mark_successful_run (clock sc1))
                            (on_state_manager (update_last_check (clock sc1)) sc1))
                  else sc1);
               sc3 = snd (save_state env sc2)
           in (True, emit (Completed processed_count (length new_articles)) sc3)))"

text \<open>Lines 102 to 106: the \<^verbatim>\<open>except Exception\<close> handler.\<close>

definition handle_exception :: "run_env \<Rightarrow> py_error \<Rightarrow> EOMScraper \<Rightarrow> bool \<times> EOMScraper" where
  "handle_exception env e sc =
     (let sc1 = emit (CriticalError e) sc;
          sc2 = on_state_manager increment_error_count sc1
      in (False, snd (save_state env sc2)))"

definition run :: "run_env \<Rightarrow> EOMScraper \<Rightarrow> bool \<times> EOMScraper" where
  "run env sc =
     (case test_connection env sc of
        (False, sc1) \<Rightarrow> (False, emit ConnectionTestFailed sc1)
      | (True, sc1) \<Rightarrow>
          (case get_new_articles env (authenticate_step sc1) of
             (Inl e, sc2) \<Rightarrow> handle_exception env e sc2
           | (Inr new_articles, sc2) \<Rightarrow>
               (if new_articles = [] then finish_no_articles env sc2
                else finish_articles env new_articles sc2)))"

text \<open>The lines a run adds to the log.\<close>

definition run_log :: "run_env \<Rightarrow> EOMScraper \<Rightarrow> (datetime \<times> log_line) list" where
  "run_log env sc = drop (length (log_lines sc)) (log_lines (snd (run env sc)))"

subsection \<open>Observations on a run\<close>

text \<open>Whether the delivery of an article succeeds: \<^verbatim>\<open>send_article_email\<close> returns \<^verbatim>\<open>True\<close>.\<close>

definition delivered :: "AppConfig \<Rightarrow> item_outcome \<Rightarrow> bool" where
  "delivered app out =
     (case out of ProcessingRaises \<Rightarrow> False | SendResult r \<Rightarrow> send_article_email app r)"

fun is_save :: "log_line \<Rightarrow> bool" where
  "is_save (StateSaved s) = True"
| "is_save SaveFailed = True"
| "is_save l = False"

fun is_sent :: "log_line \<Rightarrow> bool" where
  "is_sent (ArticleSent i) = True"
| "is_sent l = False"

fun is_fetch :: "log_line \<Rightarrow> bool" where
  "is_fetch (SearchingSince t) = True"
| "is_fetch l = False"

text \<open>The calls of \<^verbatim>\<open>save_state\<close> that reached the file, in order.\<close>

definition save_lines :: "(datetime \<times> log_line) list \<Rightarrow> log_line list" where
  "save_lines lg = filter is_save (map snd lg)"

text \<open>The successful deliveries, in order.\<close>

definition sent_lines :: "(datetime \<times> log_line) list \<Rightarrow> log_line list" where
  "sent_lines lg = filter is_sent (map snd lg)"

text \<open>The fetches, each with the clock reading at which the request is issued.\<close>

definition fetch_lines :: "(datetime \<times> log_line) list \<Rightarrow> (datetime \<times> log_line) list" where
  "fetch_lines lg = filter (\<lambda>e. is_fetch (snd e)) lg"

text \<open>The in-memory state of the scraper and its watermark.\<close>

definition current_state :: "EOMScraper \<Rightarrow> ScraperState option" where
  "current_state sc = state (state_manager sc)"

definition watermark :: "EOMScraper \<Rightarrow> timestamp_text option" where
  "watermark sc = map_option last_check_timestamp (current_state sc)"

definition watermark_time :: "EOMScraper \<Rightarrow> datetime option" where
  "watermark_time sc = (case watermark sc of None \<Rightarrow> None | Some txt \<Rightarrow> fromisoformat txt)"

text \<open>
  The scraper right after the fetch of a run that passed the connection test, and the
  articles that \<^verbatim>\<open>_get_new_articles\<close> returns then.
\<close>

definition fetched :: "run_env \<Rightarrow> EOMScraper \<Rightarrow> EOMScraper" where
  "fetched env sc = snd (get_new_articles env (authenticate_step (snd (test_connection env sc))))"

definition candidates :: "run_env \<Rightarrow> EOMScraper \<Rightarrow> ArticleMetadata list" where
  "candidates env sc =
     (case fst (get_new_articles env (authenticate_step (snd (test_connection env sc)))) of
        Inl e \<Rightarrow> [] | Inr new_articles \<Rightarrow> new_articles)"

text \<open>Consecutive calls of \<^verbatim>\<open>run\<close> on one scraper, one environment per call.\<close>

fun run_sequence :: "run_env list \<Rightarrow> EOMScraper \<Rightarrow> EOMScraper" where
  "run_sequence [] sc = sc"
| "run_sequence (env # envs) sc = run_sequence envs (snd (run env sc))"

text \<open>A feed item whose id is the integer 0, with the id removed.\<close>

definition null_zero_id :: "raw_post \<Rightarrow> raw_post" where
  "null_zero_id p = (if post_id p = Some 0 then p\<lparr>post_id := None\<rparr> else p)"

subsection \<open>Concrete inputs\<close>

definition example_state :: ScraperState where
  "example_state =
     \<lparr> last_check_timestamp = Iso 0,
       processed_post_ids = {2},
       total_posts_processed = 1,
       last_successful_run = Other [],
       errors_count = 0 \<rparr>"

definition example_scraper :: EOMScraper where
  "example_scraper =
     \<lparr> eom_config = \<lparr>username = None, password = None\<rparr>,
       app_config = \<lparr>dry_run = False, process_open_content = True,
                     process_premium_content = False, request_delay = 1000000\<rparr>,
       state_manager = \<lparr>state = Some example_state\<rparr>,
       clock = 5,
       log_lines = [] \<rparr>"

definition example_post :: "int \<Rightarrow> raw_post" where
  "example_post n = \<lparr>post_id = Some n, post_title = ''title'', post_content = ''<p>text</p>''\<rparr>"

text \<open>A run in which the feed answers with three posts and every delivery succeeds.\<close>

definition example_env :: run_env where
  "example_env =
     \<lparr> smtp_ok = True, smtp_elapsed = 0,
       fetch = Response 200 [example_post 1, example_post 2, example_post 3],
       http_elapsed = 0,
       item = (\<lambda>i. SendResult True),
       item_elapsed = (\<lambda>i. 0),
       disk_ok = True \<rparr>"

text \<open>The same scraper with a watermark later than its clock.\<close>

definition future_scraper :: EOMScraper where
  "future_scraper =
     example_scraper\<lparr>state_manager :=
       \<lparr>state = Some (example_state\<lparr>last_check_timestamp := Iso 1000000000000000\<rparr>)\<rparr>\<rparr>"

section \<open>Properties\<close>

subsection \<open>Basic facts about the model\<close>

lemma save_lines_append [simp]: "save_lines (xs @ ys) = save_lines xs @ save_lines ys"
  by (simp add: save_lines_def)
lemma sent_lines_append [simp]: "sent_lines (xs @ ys) = sent_lines xs @ sent_lines ys"
  by (simp add: sent_lines_def)
lemma fetch_lines_append [simp]: "fetch_lines (xs @ ys) = fetch_lines xs @ fetch_lines ys"
  by (simp add: fetch_lines_def)

lemma emit_fields [simp]:
  "app_config (emit l sc) = app_config sc"
  "eom_config (emit l sc) = eom_config sc"
  "state_manager (emit l sc) = state_manager sc"
  "clock (emit l sc) = clock sc"
  "log_lines (emit l sc) = log_lines sc @ [(clock sc, l)]"
  by (simp_all add: emit_def)

lemma elapse_fields [simp]:
  "app_config (elapse d sc) = app_config sc"
  "eom_config (elapse d sc) = eom_config sc"
  "state_manager (elapse d sc) = state_manager sc"
  "clock (elapse d sc) = clock sc + int d"
  "log_lines (elapse d sc) = log_lines sc"
  by (simp_all add: elapse_def)

lemma on_state_manager_fields [simp]:
  "app_config (on_state_manager f sc) = app_config sc"
  "eom_config (on_state_manager f sc) = eom_config sc"
  "state_manager (on_state_manager f sc) = f (state_manager sc)"
  "clock (on_state_manager f sc) = clock sc"
  "log_lines (on_state_manager f sc) = log_lines sc"
  by (simp_all add: on_state_manager_def)

lemma process_loop_Cons:
  "process_loop env n i (article # rest) cnt sc =
     process_loop env n (i + 1) rest (fst (process_one_article env n i article cnt sc))
                                     (snd (process_one_article env n i article cnt sc))"
  by (simp add: case_prod_unfold)

lemma mark_post_processed_state:
  "state (mark_post_processed pid sm) =
     (case state sm of None \<Rightarrow> None
      | Some s \<Rightarrow> Some (if pid \<in> processed_post_ids s then s
                         else s\<lparr>processed_post_ids := insert pid (processed_post_ids s),
                                total_posts_processed := total_posts_processed s + 1\<rparr>))"
  by (simp add: mark_post_processed_def split: option.splits)

lemma mark_post_processed_keeps:
  "map_option last_check_timestamp (state (mark_post_processed pid sm)) = map_option last_check_timestamp (state sm)"
  "map_option errors_count (state (mark_post_processed pid sm)) = map_option errors_count (state sm)"
  "map_option last_successful_run (state (mark_post_processed pid sm)) = map_option last_successful_run (state sm)"
  by (simp_all add: mark_post_processed_state split: option.splits)

lemma process_one_article_config [simp]:
  "app_config (snd (process_one_article env n i a cnt sc)) = app_config sc"
  "eom_config (snd (process_one_article env n i a cnt sc)) = eom_config sc"
  by (simp_all add: process_one_article_def Let_def split: item_outcome.splits option.splits)

lemma process_one_article_clock:
  "clock sc \<le> clock (snd (process_one_article env n i a cnt sc))"
  by (simp add: process_one_article_def Let_def split: item_outcome.splits option.splits)

lemma process_one_article_keeps:
  "map_option last_check_timestamp (state (state_manager (snd (process_one_article env n i a cnt sc))))
     = map_option last_check_timestamp (state (state_manager sc))"
  "map_option errors_count (state (state_manager (snd (process_one_article env n i a cnt sc))))
     = map_option errors_count (state (state_manager sc))"
  "map_option last_successful_run (state (state_manager (snd (process_one_article env n i a cnt sc))))
     = map_option last_successful_run (state (state_manager sc))"
  by (simp_all add: process_one_article_def Let_def mark_post_processed_keeps
        split: item_outcome.splits option.splits)

lemma process_one_article_count:
  "fst (process_one_article env n i a cnt sc) =
     (if delivered (app_config sc) (item env i) then cnt + 1 else cnt)"
  by (simp add: process_one_article_def Let_def delivered_def split: item_outcome.splits)

lemma process_one_article_log:
  "log_lines (snd (process_one_article env n i a cnt sc)) =
     log_lines sc @
       [(clock sc + int (item_elapsed env i),
         case item env i of
           ProcessingRaises \<Rightarrow> ArticleError (m_id a)
         | SendResult r \<Rightarrow> if send_article_email (app_config sc) r
                            then ArticleSent (m_id a) else ArticleNotSent (m_id a))]"
  by (simp add: process_one_article_def Let_def split: item_outcome.splits option.splits)

lemma process_one_article_not_delivered:
  "\<not> delivered (app_config sc) (item env i) \<Longrightarrow>
   state_manager (snd (process_one_article env n i a cnt sc)) = state_manager sc"
  by (simp add: process_one_article_def Let_def delivered_def split: item_outcome.splits)

lemma process_loop_config [simp]:
  "app_config (snd (process_loop env n i articles cnt sc)) = app_config sc"
  "eom_config (snd (process_loop env n i articles cnt sc)) = eom_config sc"
  by (induction articles arbitrary: i cnt sc)
     (simp_all add: process_loop_Cons del: process_loop.simps(2))

lemma process_loop_clock:
  "clock sc \<le> clock (snd (process_loop env n i articles cnt sc))"
proof (induction articles arbitrary: i cnt sc)
  case Nil
  show ?case by simp
next
  case (Cons a rest)
  show ?case
    unfolding process_loop_Cons
    by (rule order_trans[OF process_one_article_clock Cons.IH])
qed

lemma process_loop_keeps:
  "map_option last_check_timestamp (state (state_manager (snd (process_loop env n i articles cnt sc))))
     = map_option last_check_timestamp (state (state_manager sc))"
  "map_option errors_count (state (state_manager (snd (process_loop env n i articles cnt sc))))
     = map_option errors_count (state (state_manager sc))"
  "map_option last_successful_run (state (state_manager (snd (process_loop env n i articles cnt sc))))
     = map_option last_successful_run (state (state_manager sc))"
  by (induction articles arbitrary: i cnt sc)
     (simp_all add: process_loop_Cons process_one_article_keeps del: process_loop.simps(2))

lemma process_loop_count_le:
  "cnt \<le> fst (process_loop env n i articles cnt sc)"
proof (induction articles arbitrary: i cnt sc)
  case Nil
  show ?case by simp
next
  case (Cons a rest)
  have "cnt \<le> fst (process_one_article env n i a cnt sc)"
    by (simp add: process_one_article_count)
  then show ?case
    unfolding process_loop_Cons by (rule order_trans[OF _ Cons.IH])
qed

lemma process_one_article_sent_count:
  "fst (process_one_article env n i a cnt sc) + length (sent_lines (log_lines sc))
     = cnt + length (sent_lines (log_lines (snd (process_one_article env n i a cnt sc))))"
  by (cases "item env i")
     (simp_all add: process_one_article_count process_one_article_log sent_lines_def delivered_def)

lemma process_loop_sent_count:
  "fst (process_loop env n i articles cnt sc) + length (sent_lines (log_lines sc))
     = cnt + length (sent_lines (log_lines (snd (process_loop env n i articles cnt sc))))"
proof (induction articles arbitrary: i cnt sc)
  case Nil
  show ?case by simp
next
  case (Cons a rest)
  show ?case
    using Cons.IH[of "i + 1" "fst (process_one_article env n i a cnt sc)"
                     "snd (process_one_article env n i a cnt sc)"]
          process_one_article_sent_count[of env n i a cnt sc]
    unfolding process_loop_Cons by linarith
qed

lemma process_loop_other_lines:
  "save_lines (log_lines (snd (process_loop env n i articles cnt sc))) = save_lines (log_lines sc)"
  "fetch_lines (log_lines (snd (process_loop env n i articles cnt sc))) = fetch_lines (log_lines sc)"
  by (induction articles arbitrary: i cnt sc)
     (simp_all add: process_loop_Cons process_one_article_log save_lines_def fetch_lines_def
               del: process_loop.simps(2) split: item_outcome.splits)

lemma process_loop_prefix:
  "prefix (log_lines sc) (log_lines (snd (process_loop env n i articles cnt sc)))"
proof (induction articles arbitrary: i cnt sc)
  case Nil
  show ?case by simp
next
  case (Cons a rest)
  have "prefix (log_lines sc) (log_lines (snd (process_one_article env n i a cnt sc)))"
    by (simp add: process_one_article_log)
  then show ?case
    unfolding process_loop_Cons by (rule prefix_order.trans[OF _ Cons.IH])
qed

lemma process_loop_none_sent:
  "fst (process_loop env n i articles cnt sc) = cnt \<Longrightarrow>
   state_manager (snd (process_loop env n i articles cnt sc)) = state_manager sc"
proof (induction articles arbitrary: i cnt sc)
  case Nil
  show ?case by simp
next
  case (Cons a rest)
  let ?r = "process_one_article env n i a cnt sc"
  have le: "fst ?r \<le> fst (process_loop env n (i + 1) rest (fst ?r) (snd ?r))"
    by (rule process_loop_count_le)
  show ?case
  proof (cases "delivered (app_config sc) (item env i)")
    case True
    then have "fst ?r = cnt + 1" by (simp add: process_one_article_count)
    with le Cons.prems show ?thesis by (simp add: process_loop_Cons del: process_loop.simps(2))
  next
    case False
    then have c: "fst ?r = cnt" by (simp add: process_one_article_count)
    from False have s: "state_manager (snd ?r) = state_manager sc"
      by (rule process_one_article_not_delivered)
    from Cons.prems c have "fst (process_loop env n (i + 1) rest cnt (snd ?r)) = cnt"
      by (simp add: process_loop_Cons del: process_loop.simps(2))
    from Cons.IH[OF this] s c show ?thesis
      by (simp add: process_loop_Cons del: process_loop.simps(2))
  qed
qed

lemma process_loop_all_fail:
  "\<forall>j. \<not> delivered (app_config sc) (item env j) \<Longrightarrow>
   fst (process_loop env n i articles cnt sc) = cnt"
proof (induction articles arbitrary: i sc)
  case Nil
  show ?case by simp
next
  case (Cons a rest)
  from Cons.prems have "fst (process_one_article env n i a cnt sc) = cnt"
    by (simp add: process_one_article_count)
  moreover from Cons.prems
  have "fst (process_loop env n (i + 1) rest cnt (snd (process_one_article env n i a cnt sc))) = cnt"
    by (intro Cons.IH) simp
  ultimately show ?case
    by (simp add: process_loop_Cons del: process_loop.simps(2))
qed

lemma new_articles_loop_cong:
  "state_manager sc' = state_manager sc \<Longrightarrow> app_config sc' = app_config sc \<Longrightarrow>
   new_articles_loop sc' posts = new_articles_loop sc posts"
  by (induction posts) (simp_all add: Let_def split: option.splits)

lemma get_new_articles_eq:
  "get_new_articles env sc =
     (let sc0 = emit (SearchingSince (get_last_check_datetime (clock sc) (state_manager sc))) sc
      in case fetch env of
           Response st body \<Rightarrow>
             (Inr (if st = 200 then new_articles_loop sc body else []),
              elapse (request_delay (app_config sc)) (elapse (http_elapsed env) sc0))
         | RequestException \<Rightarrow> (Inr [], elapse (http_elapsed env) sc0)
         | UnexpectedException \<Rightarrow> (Inl OtherException, elapse (http_elapsed env) sc0))"
proof -
  have c: "\<And>d1 d2 l. new_articles_loop (elapse d1 (elapse d2 (emit l sc))) = new_articles_loop sc"
    by (rule ext, rule new_articles_loop_cong) simp_all
  show ?thesis
    by (cases "fetch env")
       (simp_all add: get_new_articles_def get_posts_since_def make_request_def Let_def c)
qed

lemma delivered_dry_run:
  "dry_run app' = dry_run app \<Longrightarrow> delivered app' out = delivered app out"
  by (simp add: delivered_def send_article_email_def split: item_outcome.splits)

lemma test_connection_fields [simp]:
  "app_config (snd (test_connection env sc)) = app_config sc"
  "eom_config (snd (test_connection env sc)) = eom_config sc"
  "state_manager (snd (test_connection env sc)) = state_manager sc"
  "log_lines (snd (test_connection env sc)) = log_lines sc"
  by (simp_all add: test_connection_def)

lemma state_update_last_check:
  "state (update_last_check t sm) = map_option (\<lambda>s. s\<lparr>last_check_timestamp := isoformat t\<rparr>) (state sm)"
  by (simp add: update_last_check_def split: option.splits)

lemma state_mark_successful_run:
  "state (mark_successful_run t sm) = map_option (\<lambda>s. s\<lparr>last_successful_run := isoformat t\<rparr>) (state sm)"
  by (simp add: mark_successful_run_def split: option.splits)

lemma state_increment_error_count:
  "state (increment_error_count sm) = map_option (\<lambda>s. s\<lparr>errors_count := errors_count s + 1\<rparr>) (state sm)"
  by (simp add: increment_error_count_def split: option.splits)

lemma state_cleanup:
  "state (cleanup_old_processed_ids k sm) =
     map_option (\<lambda>s. if 2 * int (card (processed_post_ids s)) > 3 * k
                      then s\<lparr>processed_post_ids :=
                               set (py_prefix k (rev (sorted_list_of_set (processed_post_ids s))))\<rparr>
                      else s) (state sm)"
  by (simp add: cleanup_old_processed_ids_def Let_def split: option.splits)

lemma save_state_fields [simp]:
  "app_config (snd (save_state env sc)) = app_config sc"
  "eom_config (snd (save_state env sc)) = eom_config sc"
  "state_manager (snd (save_state env sc)) = state_manager sc"
  "clock (snd (save_state env sc)) = clock sc"
  by (simp_all add: save_state_def split: option.splits)

lemma save_state_log:
  "log_lines (snd (save_state env sc)) =
     log_lines sc @ (case state (state_manager sc) of
                       None \<Rightarrow> []
                     | Some s \<Rightarrow> [(clock sc, if disk_ok env then StateSaved s else SaveFailed)])"
  by (simp add: save_state_def split: option.splits)

lemma authenticate_step_fields [simp]:
  "eom_config (authenticate_step sc) = eom_config sc"
  "state_manager (authenticate_step sc) = state_manager sc"
  "clock (authenticate_step sc) = clock sc"
  "log_lines (authenticate_step sc) = log_lines sc"
  "dry_run (app_config (authenticate_step sc)) = dry_run (app_config sc)"
  "request_delay (app_config (authenticate_step sc)) = request_delay (app_config sc)"
  by (simp_all add: authenticate_step_def)

lemma run_eq:
  "run env sc =
     (if fst (test_connection env sc)
      then (let r = get_new_articles env (authenticate_step (snd (test_connection env sc)))
            in case fst r of
                 Inl e \<Rightarrow> handle_exception env e (snd r)
               | Inr new_articles \<Rightarrow>
                   if new_articles = [] then finish_no_articles env (snd r)
                   else finish_articles env new_articles (snd r))
      else (False, emit ConnectionTestFailed (snd (test_connection env sc))))"
  by (cases "test_connection env sc")
     (simp add: run_def Let_def split: prod.splits bool.splits sum.splits)

lemma get_new_articles_fields [simp]:
  "app_config (snd (get_new_articles env sc)) = app_config sc"
  "eom_config (snd (get_new_articles env sc)) = eom_config sc"
  "state_manager (snd (get_new_articles env sc)) = state_manager sc"
  by (simp_all add: get_new_articles_eq Let_def split: http_outcome.splits)

lemma get_new_articles_log:
  "log_lines (snd (get_new_articles env sc)) =
     log_lines sc @ [(clock sc, SearchingSince (get_last_check_datetime (clock sc) (state_manager sc)))]"
  by (simp add: get_new_articles_eq Let_def split: http_outcome.splits)

lemma get_new_articles_clock:
  "clock (snd (get_new_articles env sc)) =
     clock sc + int (http_elapsed env) +
       (case fetch env of Response st body \<Rightarrow> int (request_delay (app_config sc)) | _ \<Rightarrow> 0)"
  by (simp add: get_new_articles_eq Let_def split: http_outcome.splits)

lemma get_new_articles_result:
  "fst (get_new_articles env sc) =
     (case fetch env of
        Response st body \<Rightarrow> Inr (if st = 200 then new_articles_loop sc body else [])
      | RequestException \<Rightarrow> Inr []
      | UnexpectedException \<Rightarrow> Inl OtherException)"
  by (simp add: get_new_articles_eq Let_def split: http_outcome.splits)

text \<open>The three ways in which a run that passed the connection test ends.\<close>

lemma handle_exception_facts:
  "fst (handle_exception env e sc) = False"
  "state (state_manager (snd (handle_exception env e sc))) =
     map_option (\<lambda>s. s\<lparr>errors_count := errors_count s + 1\<rparr>) (state (state_manager sc))"
  "clock (snd (handle_exception env e sc)) = clock sc"
  "log_lines (snd (handle_exception env e sc)) =
     log_lines sc @ (clock sc, CriticalError e) #
       (case state (state_manager sc) of None \<Rightarrow> []
        | Some s \<Rightarrow> [(clock sc, if disk_ok env then StateSaved (s\<lparr>errors_count := errors_count s + 1\<rparr>)
                                 else SaveFailed)])"
  by (simp_all add: handle_exception_def Let_def save_state_log state_increment_error_count
               split: option.splits)

lemma finish_no_articles_facts:
  "fst (finish_no_articles env sc) = True"
  "state (state_manager (snd (finish_no_articles env sc))) =
     map_option (\<lambda>s. s\<lparr>last_successful_run := isoformat (clock sc)\<rparr>) (state (state_manager sc))"
  "clock (snd (finish_no_articles env sc)) = clock sc"
  "log_lines (snd (finish_no_articles env sc)) =
     log_lines sc @ (clock sc, NoNewArticles) #
       (case state (state_manager sc) of None \<Rightarrow> []
        | Some s \<Rightarrow> [(clock sc, if disk_ok env then StateSaved (s\<lparr>last_successful_run := isoformat (clock sc)\<rparr>)
                                 else SaveFailed)])"
  by (simp_all add: finish_no_articles_def Let_def save_state_log state_mark_successful_run
               split: option.splits)

lemma finish_articles_eq:
  "finish_articles env arts sc =
     (let r = process_articles env arts sc;
          sc2 = (if fst r > 0
                 then on_state_manager (cleanup_old_processed_ids 1000)
                        (on_state_manager (mark_successful_run (clock (snd r)))
                           (on_state_manager (update_last_check (clock (snd r))) (snd r)))
                 else snd r)
      in (True, emit (Completed (fst r) (length arts)) (snd (save_state env sc2))))"
  by (simp add: finish_articles_def case_prod_unfold Let_def)

lemma run_cases [case_names aborted failed no_articles delivering]:
  assumes "\<not> fst (test_connection env sc) \<Longrightarrow>
           run env sc = (False, emit ConnectionTestFailed (snd (test_connection env sc))) \<Longrightarrow> P"
    and "fst (test_connection env sc) \<Longrightarrow> fetch env = UnexpectedException \<Longrightarrow>
         run env sc = handle_exception env OtherException (fetched env sc) \<Longrightarrow> P"
    and "fst (test_connection env sc) \<Longrightarrow> fetch env \<noteq> UnexpectedException \<Longrightarrow>
         candidates env sc = [] \<Longrightarrow>
         run env sc = finish_no_articles env (fetched env sc) \<Longrightarrow> P"
    and "fst (test_connection env sc) \<Longrightarrow> fetch env \<noteq> UnexpectedException \<Longrightarrow>
         candidates env sc \<noteq> [] \<Longrightarrow>
         run env sc = finish_articles env (candidates env sc) (fetched env sc) \<Longrightarrow> P"
  shows P
proof (cases "fst (test_connection env sc)")
  case False
  with assms(1) show ?thesis by (simp add: run_eq)
next
  case True
  show ?thesis
  proof (cases "fetch env")
    case UnexpectedException
    with True assms(2) show ?thesis
      by (simp add: run_eq fetched_def get_new_articles_result)
  next
    case RequestException
    with True assms(3) show ?thesis
      by (simp add: run_eq fetched_def candidates_def get_new_articles_result)
  next
    case (Response st body)
    show ?thesis
    proof (cases "candidates env sc = []")
      case e: True
      with True Response assms(3) show ?thesis
        by (simp add: run_eq fetched_def candidates_def get_new_articles_result)
    next
      case ne: False
      with True Response assms(4) show ?thesis
        by (simp add: run_eq fetched_def candidates_def get_new_articles_result)
    qed
  qed
qed

lemma fetched_fields [simp]:
  "state_manager (fetched env sc) = state_manager sc"
  "eom_config (fetched env sc) = eom_config sc"
  "dry_run (app_config (fetched env sc)) = dry_run (app_config sc)"
  by (simp_all add: fetched_def)

lemma fetched_log:
  "log_lines (fetched env sc) =
     log_lines sc @ [(clock (snd (test_connection env sc)),
                      SearchingSince (get_last_check_datetime (clock (snd (test_connection env sc)))
                                        (state_manager sc)))]"
  by (simp add: fetched_def get_new_articles_log)

lemma fetched_clock:
  "clock (fetched env sc) =
     clock (snd (test_connection env sc)) + int (http_elapsed env) +
       (case fetch env of Response st body \<Rightarrow> int (request_delay (app_config sc)) | _ \<Rightarrow> 0)"
  by (simp add: fetched_def get_new_articles_clock split: http_outcome.splits)

lemma test_connection_clock: "clock sc \<le> clock (snd (test_connection env sc))"
  by (simp add: test_connection_def)

lemma run_log_nil_prefix:
  "prefix (log_lines sc) (log_lines (snd (run env sc)))"
proof (cases rule: run_cases[of env sc])
  case aborted
  then show ?thesis by simp
next
  case failed
  then show ?thesis by (simp add: handle_exception_facts fetched_log)
next
  case no_articles
  then show ?thesis by (simp add: finish_no_articles_facts fetched_log)
next
  case delivering
  have "prefix (log_lines sc) (log_lines (fetched env sc))"
    by (simp add: fetched_log)
  also have "prefix (log_lines (fetched env sc))
               (log_lines (snd (process_articles env (candidates env sc) (fetched env sc))))"
    unfolding process_articles_def by (rule process_loop_prefix)
  also have "prefix (log_lines (snd (process_articles env (candidates env sc) (fetched env sc))))
               (log_lines (snd (run env sc)))"
    by (simp add: delivering finish_articles_eq Let_def save_state_log)
  finally show ?thesis .
qed

lemma run_log_append:
  "log_lines (snd (run env sc)) = log_lines sc @ run_log env sc"
  using run_log_nil_prefix[of sc env]
  by (auto simp: run_log_def prefix_def)

lemma process_articles_facts:
  "app_config (snd (process_articles env arts sc)) = app_config sc"
  "clock sc \<le> clock (snd (process_articles env arts sc))"
  "map_option last_check_timestamp (state (state_manager (snd (process_articles env arts sc))))
     = map_option last_check_timestamp (state (state_manager sc))"
  "map_option errors_count (state (state_manager (snd (process_articles env arts sc))))
     = map_option errors_count (state (state_manager sc))"
  "save_lines (log_lines (snd (process_articles env arts sc))) = save_lines (log_lines sc)"
  "fetch_lines (log_lines (snd (process_articles env arts sc))) = fetch_lines (log_lines sc)"
  "fst (process_articles env arts sc) + length (sent_lines (log_lines sc))
     = length (sent_lines (log_lines (snd (process_articles env arts sc))))"
  using process_loop_sent_count[of env "length arts" 1 arts 0 sc]
  by (simp_all add: process_articles_def process_loop_clock process_loop_keeps process_loop_other_lines)

lemma process_articles_none_sent:
  "fst (process_articles env arts sc) = 0 \<Longrightarrow>
   state_manager (snd (process_articles env arts sc)) = state_manager sc"
  unfolding process_articles_def by (rule process_loop_none_sent)

lemma process_articles_all_fail:
  "\<forall>j. \<not> delivered (app_config sc) (item env j) \<Longrightarrow> fst (process_articles env arts sc) = 0"
  unfolding process_articles_def by (rule process_loop_all_fail)

lemma finish_articles_facts:
  "fst (finish_articles env arts sc) = True"
  "clock (snd (finish_articles env arts sc)) = clock (snd (process_articles env arts sc))"
  "state_manager (snd (finish_articles env arts sc)) =
     (if fst (process_articles env arts sc) > 0
      then cleanup_old_processed_ids 1000
             (mark_successful_run (clock (snd (process_articles env arts sc)))
                (update_last_check (clock (snd (process_articles env arts sc)))
                   (state_manager (snd (process_articles env arts sc)))))
      else state_manager (snd (process_articles env arts sc)))"
  "log_lines (snd (finish_articles env arts sc)) =
     log_lines (snd (process_articles env arts sc)) @
       (case state (state_manager (snd (finish_articles env arts sc))) of
          None \<Rightarrow> []
        | Some s \<Rightarrow> [(clock (snd (process_articles env arts sc)),
                       if disk_ok env then StateSaved s else SaveFailed)]) @
       [(clock (snd (process_articles env arts sc)),
         Completed (fst (process_articles env arts sc)) (length arts))]"
  by (simp_all add: finish_articles_eq Let_def save_state_log split: option.splits)

lemma save_lines_simps [simp]:
  "save_lines [] = []"
  "save_lines ((t, l) # lg) = (if is_save l then l # save_lines lg else save_lines lg)"
  by (simp_all add: save_lines_def)

lemma sent_lines_simps [simp]:
  "sent_lines [] = []"
  "sent_lines ((t, l) # lg) = (if is_sent l then l # sent_lines lg else sent_lines lg)"
  by (simp_all add: sent_lines_def)

lemma fetch_lines_simps [simp]:
  "fetch_lines [] = []"
  "fetch_lines ((t, l) # lg) = (if is_fetch l then (t, l) # fetch_lines lg else fetch_lines lg)"
  by (simp_all add: fetch_lines_def)

lemma run_save_lines:
  "save_lines (run_log env sc) =
     (if fst (test_connection env sc)
      then (case current_state (snd (run env sc)) of
              None \<Rightarrow> []
            | Some s \<Rightarrow> [if disk_ok env then StateSaved s else SaveFailed])
      else [])"
proof -
  have "save_lines (log_lines (snd (run env sc))) = save_lines (log_lines sc) @
     (if fst (test_connection env sc)
      then (case current_state (snd (run env sc)) of
              None \<Rightarrow> []
            | Some s \<Rightarrow> [if disk_ok env then StateSaved s else SaveFailed])
      else [])"
  proof (cases rule: run_cases[of env sc])
    case aborted
    then show ?thesis by simp
  next
    case failed
    then show ?thesis
      by (simp add: handle_exception_facts fetched_log current_state_def split: option.splits)
  next
    case no_articles
    then show ?thesis
      by (simp add: finish_no_articles_facts fetched_log current_state_def split: option.splits)
  next
    case delivering
    then show ?thesis
      by (simp add: finish_articles_facts(4) process_articles_facts fetched_log current_state_def
               split: option.splits)
  qed
  then show ?thesis
    by (simp add: run_log_append)
qed

lemma run_fetch_lines:
  "fetch_lines (run_log env sc) =
     (if fst (test_connection env sc)
      then [(clock (snd (test_connection env sc)),
             SearchingSince (get_last_check_datetime (clock (snd (test_connection env sc)))
                               (state_manager sc)))]
      else [])"
proof -
  have "fetch_lines (log_lines (snd (run env sc))) = fetch_lines (log_lines sc) @
     (if fst (test_connection env sc)
      then [(clock (snd (test_connection env sc)),
             SearchingSince (get_last_check_datetime (clock (snd (test_connection env sc)))
                               (state_manager sc)))]
      else [])"
  proof (cases rule: run_cases[of env sc])
    case aborted
    then show ?thesis by simp
  next
    case failed
    then show ?thesis
      by (simp add: handle_exception_facts fetched_log split: option.splits)
  next
    case no_articles
    then show ?thesis
      by (simp add: finish_no_articles_facts fetched_log split: option.splits)
  next
    case delivering
    then show ?thesis
      by (simp add: finish_articles_facts(4) process_articles_facts fetched_log
               split: option.splits)
  qed
  then show ?thesis
    by (simp add: run_log_append)
qed

lemma run_result:
  "fst (run env sc) = (fst (test_connection env sc) \<and> fetch env \<noteq> UnexpectedException)"
  by (cases rule: run_cases[of env sc])
     (simp_all add: handle_exception_facts finish_no_articles_facts finish_articles_facts)

lemma run_sent_count:
  "length (sent_lines (run_log env sc)) =
     (if fst (test_connection env sc) \<and> fetch env \<noteq> UnexpectedException \<and> candidates env sc \<noteq> []
      then fst (process_articles env (candidates env sc) (fetched env sc))
      else 0)"
proof -
  have "length (sent_lines (log_lines (snd (run env sc)))) = length (sent_lines (log_lines sc)) +
     (if fst (test_connection env sc) \<and> fetch env \<noteq> UnexpectedException \<and> candidates env sc \<noteq> []
      then fst (process_articles env (candidates env sc) (fetched env sc))
      else 0)"
  proof (cases rule: run_cases[of env sc])
    case aborted
    then show ?thesis by simp
  next
    case failed
    then show ?thesis
      by (simp add: handle_exception_facts fetched_log split: option.splits)
  next
    case no_articles
    then show ?thesis
      by (simp add: finish_no_articles_facts fetched_log split: option.splits)
  next
    case delivering
    have "length (sent_lines (log_lines (snd (run env sc)))) =
          length (sent_lines (log_lines (snd (process_articles env (candidates env sc) (fetched env sc)))))"
      by (simp add: delivering finish_articles_facts(4) split: option.splits)
    also have "\<dots> = fst (process_articles env (candidates env sc) (fetched env sc))
                    + length (sent_lines (log_lines (fetched env sc)))"
      by (simp add: process_articles_facts(7))
    also have "length (sent_lines (log_lines (fetched env sc))) = length (sent_lines (log_lines sc))"
      by (simp add: fetched_log)
    finally show ?thesis using delivering by simp
  qed
  then show ?thesis
    by (simp add: run_log_append)
qed

lemma run_state_manager:
  "state_manager (snd (run env sc)) =
     (if \<not> fst (test_connection env sc) then state_manager sc
      else if fetch env = UnexpectedException then increment_error_count (state_manager sc)
      else if candidates env sc = []
        then mark_successful_run (clock (fetched env sc)) (state_manager sc)
      else if sent_lines (run_log env sc) = [] then state_manager sc
      else cleanup_old_processed_ids 1000
             (mark_successful_run (clock (snd (run env sc)))
                (update_last_check (clock (snd (run env sc)))
                   (state_manager (snd (process_articles env (candidates env sc) (fetched env sc)))))))"
proof (cases rule: run_cases[of env sc])
  case aborted
  then show ?thesis by simp
next
  case failed
  then show ?thesis by (simp add: handle_exception_def Let_def)
next
  case no_articles
  then show ?thesis by (simp add: finish_no_articles_def Let_def)
next
  case delivering
  have n: "(sent_lines (run_log env sc) = []) =
           (fst (process_articles env (candidates env sc) (fetched env sc)) = 0)"
    using run_sent_count[of env sc] delivering(1,2,3)
    by (cases "sent_lines (run_log env sc)") auto
  show ?thesis
    using delivering n process_articles_none_sent[of env "candidates env sc" "fetched env sc"]
    by (simp add: finish_articles_facts)
qed

lemma run_watermark:
  "watermark (snd (run env sc)) =
     (if sent_lines (run_log env sc) = [] then watermark sc
      else map_option (\<lambda>w. isoformat (clock (snd (run env sc)))) (watermark sc))"
proof (cases rule: run_cases[of env sc])
  case aborted
  then show ?thesis by (simp add: run_log_def watermark_def current_state_def)
next
  case failed
  with run_sent_count[of env sc] have "sent_lines (run_log env sc) = []" by simp
  with failed(1,2) show ?thesis
    by (simp add: run_state_manager watermark_def current_state_def state_increment_error_count
                  option.map_comp comp_def)
next
  case no_articles
  with run_sent_count[of env sc] have "sent_lines (run_log env sc) = []" by simp
  with no_articles(1,2,3) show ?thesis
    by (simp add: run_state_manager watermark_def current_state_def state_mark_successful_run
                  option.map_comp comp_def)
next
  case delivering
  show ?thesis
    using delivering(1,2,3)
          process_articles_facts(3)[of env "candidates env sc" "fetched env sc"]
    by (cases "state (state_manager (snd (process_articles env (candidates env sc) (fetched env sc))))";
        cases "state (state_manager sc)")
       (auto simp add: run_state_manager watermark_def current_state_def state_cleanup
                  state_mark_successful_run state_update_last_check)
qed

lemma run_errors_count:
  "map_option errors_count (current_state (snd (run env sc))) =
     map_option (\<lambda>s. if fst (test_connection env sc) \<and> fetch env = UnexpectedException
                      then errors_count s + 1 else errors_count s) (current_state sc)"
proof (cases rule: run_cases[of env sc])
  case aborted
  then show ?thesis by (simp add: current_state_def option.map_ident)
next
  case failed
  from failed(1,2) show ?thesis
    by (simp add: run_state_manager current_state_def state_increment_error_count
                  option.map_comp comp_def)
next
  case no_articles
  from no_articles(1,2,3) show ?thesis
    by (simp add: run_state_manager current_state_def state_mark_successful_run
                  option.map_comp comp_def)
next
  case delivering
  show ?thesis
    using delivering(1,2,3)
          process_articles_facts(4)[of env "candidates env sc" "fetched env sc"]
    by (cases "state (state_manager (snd (process_articles env (candidates env sc) (fetched env sc))))";
        cases "state (state_manager sc)")
       (auto simp add: run_state_manager current_state_def state_cleanup
                  state_mark_successful_run state_update_last_check)
qed

lemma run_clock:
  "fst (test_connection env sc) \<Longrightarrow>
   clock (snd (test_connection env sc)) + int (http_elapsed env) +
     (case fetch env of Response st body \<Rightarrow> int (request_delay (app_config sc)) | _ \<Rightarrow> 0)
   \<le> clock (snd (run env sc))"
proof (cases rule: run_cases[of env sc])
  case aborted
  assume "fst (test_connection env sc)"
  with aborted show ?thesis by simp
next
  case failed
  then show ?thesis by (simp add: handle_exception_facts fetched_clock)
next
  case no_articles
  then show ?thesis by (simp add: finish_no_articles_facts fetched_clock)
next
  case delivering
  have "clock (fetched env sc) \<le> clock (snd (run env sc))"
    by (simp add: delivering finish_articles_facts process_articles_facts)
  then show ?thesis by (simp add: fetched_clock)
qed

lemma run_all_fail:
  assumes "\<forall>j. \<not> delivered (app_config sc) (item env j)"
  shows "sent_lines (run_log env sc) = []"
proof -
  have "\<forall>j. \<not> delivered (app_config (fetched env sc)) (item env j)"
    using assms delivered_dry_run[of "app_config (fetched env sc)" "app_config sc"] by simp
  then have "fst (process_articles env (candidates env sc) (fetched env sc)) = 0"
    by (rule process_articles_all_fail)
  with run_sent_count[of env sc] have "length (sent_lines (run_log env sc)) = 0"
    by (simp split: if_splits)
  then show ?thesis by simp
qed

lemmas run_eval =
  run_def test_connection_def authenticate_step_def authenticate_def py_not_str_def
  get_new_articles_def get_posts_since_def make_request_def
  emit_def elapse_def get_last_check_datetime_def truthy_text_def fromisoformat_def hours_def
  is_post_processed_def py_not_id_def extract_post_metadata_def classify_post_access_def
  should_process_article_def finish_articles_def finish_no_articles_def handle_exception_def
  process_articles_def process_one_article_def
  send_article_email_def on_state_manager_def mark_post_processed_def seconds_def
  update_last_check_def mark_successful_run_def increment_error_count_def
  cleanup_old_processed_ids_def isoformat_def
  save_state_def Let_def sublist_code run_log_def
  save_lines_def sent_lines_def fetch_lines_def current_state_def watermark_def watermark_time_def
  delivered_def

lemmas example_defs =
  example_env_def example_scraper_def example_state_def example_post_def future_scraper_def

lemma run_no_articles:
  assumes "fst (test_connection env sc)"
    and "fetch env = RequestException \<or> fetch env = Response status body \<and> status \<noteq> 200
         \<or> fetch env = Response 200 []"
  shows "state_manager (snd (run env sc)) =
           mark_successful_run (clock (snd (run env sc))) (state_manager sc)"
proof -
  from assms(2) have c: "candidates env sc = []" and f: "fetch env \<noteq> UnexpectedException"
    by (auto simp: candidates_def get_new_articles_result)
  show ?thesis
  proof (cases rule: run_cases[of env sc])
    case no_articles
    then show ?thesis by (simp add: finish_no_articles_def Let_def)
  qed (use assms(1) c f in simp_all)
qed

subsection \<open>Fetch failures (C1)\<close>

text \<open>
  Counterexample to C1 as stated. With the request raising a \<^verbatim>\<open>RequestException\<close>, and
  with the feed answering status 503, the run returns \<^verbatim>\<open>True\<close> and \<open>errors_count\<close> is
  what it was: the run is a success, not a failed run.
\<close>

theorem fetch_failure_counterexample:
  "fst (run (example_env\<lparr>fetch := RequestException\<rparr>) example_scraper)
   \<and> map_option errors_count (current_state (snd (run (example_env\<lparr>fetch := RequestException\<rparr>) example_scraper)))
       = map_option errors_count (current_state example_scraper)
   \<and> fst (run (example_env\<lparr>fetch := Response 503 []\<rparr>) example_scraper)
   \<and> map_option errors_count (current_state (snd (run (example_env\<lparr>fetch := Response 503 []\<rparr>) example_scraper)))
       = map_option errors_count (current_state example_scraper)"
  by (simp add: run_eval example_defs)

text \<open>
  C1, amended. \<^verbatim>\<open>_make_request\<close> turns a \<^verbatim>\<open>RequestException\<close> and a status other than 200
  into \<^verbatim>\<open>None\<close>, and \<^verbatim>\<open>get_posts_since\<close> turns \<^verbatim>\<open>None\<close> into the empty list. So in a run
  that passed the connection test, a transport failure of the fetch ends exactly like an
  empty successful fetch: the run returns \<^verbatim>\<open>True\<close>, only \<open>last_successful_run\<close> changes
  (\<open>errors_count\<close> is not incremented), and that state is saved once. Only an exception
  that is not a \<^verbatim>\<open>RequestException\<close> reaches the handler of \<^verbatim>\<open>run\<close>: then the run returns
  \<^verbatim>\<open>False\<close> and the state saved is the old one with \<open>errors_count\<close> incremented.
\<close>

theorem fetch_failure_absorbed:
  assumes "fst (test_connection env sc)" and "current_state sc = Some s"
  shows "(fetch env = RequestException \<or> fetch env = Response status body \<and> status \<noteq> 200
            \<or> fetch env = Response 200 [] \<longrightarrow>
          fst (run env sc)
          \<and> current_state (snd (run env sc))
               = Some (s\<lparr>last_successful_run := isoformat (clock (snd (run env sc)))\<rparr>)
          \<and> save_lines (run_log env sc)
               = [if disk_ok env
                  then StateSaved (s\<lparr>last_successful_run := isoformat (clock (snd (run env sc)))\<rparr>)
                  else SaveFailed])
       \<and> (fetch env = UnexpectedException \<longrightarrow>
          \<not> fst (run env sc)
          \<and> current_state (snd (run env sc)) = Some (s\<lparr>errors_count := errors_count s + 1\<rparr>)
          \<and> save_lines (run_log env sc)
               = [if disk_ok env then StateSaved (s\<lparr>errors_count := errors_count s + 1\<rparr>)
                  else SaveFailed])"
proof (intro conjI impI)
  assume f: "fetch env = RequestException \<or> fetch env = Response status body \<and> status \<noteq> 200
            \<or> fetch env = Response 200 []"
  then have ne: "fetch env \<noteq> UnexpectedException" by auto
  have st: "current_state (snd (run env sc))
               = Some (s\<lparr>last_successful_run := isoformat (clock (snd (run env sc)))\<rparr>)"
    using run_no_articles[OF assms(1) f] assms(2)
    by (simp add: current_state_def state_mark_successful_run)
  show "fst (run env sc)" using assms(1) ne by (simp add: run_result)
  show "current_state (snd (run env sc))
               = Some (s\<lparr>last_successful_run := isoformat (clock (snd (run env sc)))\<rparr>)"
    by (rule st)
  show "save_lines (run_log env sc)
               = [if disk_ok env
                  then StateSaved (s\<lparr>last_successful_run := isoformat (clock (snd (run env sc)))\<rparr>)
                  else SaveFailed]"
    using assms(1) st by (simp add: run_save_lines)
next
  assume f: "fetch env = UnexpectedException"
  have st: "current_state (snd (run env sc)) = Some (s\<lparr>errors_count := errors_count s + 1\<rparr>)"
    using assms f by (simp add: run_state_manager current_state_def state_increment_error_count)
  show "\<not> fst (run env sc)" using f by (simp add: run_result)
  show "current_state (snd (run env sc)) = Some (s\<lparr>errors_count := errors_count s + 1\<rparr>)"
    by (rule st)
  show "save_lines (run_log env sc)
               = [if disk_ok env then StateSaved (s\<lparr>errors_count := errors_count s + 1\<rparr>)
                  else SaveFailed]"
    using assms(1) st by (simp add: run_save_lines)
qed

text \<open>
  The theorem at a feed answering status 503 and at a fetch raising an unexpected
  exception.
\<close>

theorem fetch_failure_absorbed_witness:
  "fst (test_connection (example_env\<lparr>fetch := Response 503 []\<rparr>) example_scraper)
   \<and> current_state example_scraper = Some example_state
   \<and> fst (run (example_env\<lparr>fetch := Response 503 []\<rparr>) example_scraper)
   \<and> current_state (snd (run (example_env\<lparr>fetch := Response 503 []\<rparr>) example_scraper))
        = Some (example_state\<lparr>last_successful_run := Iso 1000005\<rparr>)
   \<and> \<not> fst (run (example_env\<lparr>fetch := UnexpectedException\<rparr>) example_scraper)
   \<and> current_state (snd (run (example_env\<lparr>fetch := UnexpectedException\<rparr>) example_scraper))
        = Some (example_state\<lparr>errors_count := 1\<rparr>)
   \<and> save_lines (run_log (example_env\<lparr>fetch := UnexpectedException\<rparr>) example_scraper)
        = [StateSaved (example_state\<lparr>errors_count := 1\<rparr>)]"
proof -
  have h1: "fst (test_connection (example_env\<lparr>fetch := Response 503 []\<rparr>) example_scraper)"
    by (simp add: run_eval example_defs)
  have h1': "fst (test_connection (example_env\<lparr>fetch := UnexpectedException\<rparr>) example_scraper)"
    by (simp add: run_eval example_defs)
  have h2: "current_state example_scraper = Some example_state"
    by (simp add: run_eval example_defs)
  have c: "clock (snd (run (example_env\<lparr>fetch := Response 503 []\<rparr>) example_scraper)) = 1000005"
    by (simp add: run_eval example_defs)
  show ?thesis
    using h1 h2 fetch_failure_absorbed[OF h1 h2, of 503 "[]"] fetch_failure_absorbed[OF h1' h2]
    by (simp add: run_eval example_defs)
qed

subsection \<open>The watermark a run stores (C2)\<close>

text \<open>
  Counterexample to C2 as stated. The fetch is issued at clock reading 5; two articles
  are delivered; the watermark stored is the reading 3000005 (after the request delay of
  one second and the two seconds of pacing between the deliveries), not the reading 5.
\<close>

theorem watermark_fetch_time_counterexample:
  "fetch_lines (run_log example_env example_scraper) = [(5, SearchingSince 0)]
   \<and> sent_lines (run_log example_env example_scraper) = [ArticleSent (Some 1), ArticleSent (Some 3)]
   \<and> watermark (snd (run example_env example_scraper)) = Some (isoformat 3000005)
   \<and> isoformat 3000005 \<noteq> isoformat 5"
  by (simp add: run_eval example_defs)

text \<open>
  C2, amended. When at least one article is delivered in a run, the watermark is set to
  the clock reading taken after the delivery loop has finished (the clock of the end of
  the run), which is at or after the reading at which the fetch was issued plus the
  duration of the request and the request delay. When no article is delivered, the
  watermark is unchanged.
\<close>

theorem watermark_set_after_delivery:
  assumes "current_state sc = Some s"
  shows "(sent_lines (run_log env sc) \<noteq> [] \<longrightarrow>
            watermark (snd (run env sc)) = Some (isoformat (clock (snd (run env sc))))
          \<and> clock (snd (run env sc))
               = clock (snd (process_articles env (candidates env sc) (fetched env sc)))
          \<and> fetch_lines (run_log env sc)
               = [(clock (snd (test_connection env sc)),
                   SearchingSince (get_last_check_datetime (clock (snd (test_connection env sc)))
                                     (state_manager sc)))]
          \<and> clock (snd (test_connection env sc)) + int (http_elapsed env)
               + int (request_delay (app_config sc)) \<le> clock (snd (run env sc)))
       \<and> (sent_lines (run_log env sc) = [] \<longrightarrow> watermark (snd (run env sc)) = watermark sc)"
proof (intro conjI impI)
  assume ne: "sent_lines (run_log env sc) \<noteq> []"
  with run_sent_count[of env sc]
  have pre: "fst (test_connection env sc)" and f: "fetch env \<noteq> UnexpectedException"
    and c: "candidates env sc \<noteq> []"
    by (auto split: if_splits)
  from c obtain st body where r: "fetch env = Response st body"
    by (cases "fetch env") (auto simp: candidates_def get_new_articles_result)
  show "watermark (snd (run env sc)) = Some (isoformat (clock (snd (run env sc))))"
    using ne assms by (simp add: run_watermark) (simp add: watermark_def)
  show "clock (snd (run env sc))
          = clock (snd (process_articles env (candidates env sc) (fetched env sc)))"
    using pre f c by (cases rule: run_cases[of env sc]) (simp_all add: finish_articles_facts)
  show "fetch_lines (run_log env sc)
          = [(clock (snd (test_connection env sc)),
              SearchingSince (get_last_check_datetime (clock (snd (test_connection env sc)))
                                (state_manager sc)))]"
    using pre by (simp add: run_fetch_lines)
  show "clock (snd (test_connection env sc)) + int (http_elapsed env)
          + int (request_delay (app_config sc)) \<le> clock (snd (run env sc))"
    using run_clock[OF pre] r by simp
next
  assume "sent_lines (run_log env sc) = []"
  then show "watermark (snd (run env sc)) = watermark sc"
    by (simp add: run_watermark)
qed

text \<open>
  The theorem at a run that delivers two articles and at a run in which every send fails.
\<close>

theorem watermark_set_after_delivery_witness:
  "current_state example_scraper = Some example_state
   \<and> sent_lines (run_log example_env example_scraper) \<noteq> []
   \<and> watermark (snd (run example_env example_scraper)) = Some (Iso 3000005)
   \<and> clock (snd (run example_env example_scraper)) = 3000005
   \<and> fetch_lines (run_log example_env example_scraper) = [(5, SearchingSince 0)]
   \<and> sent_lines (run_log (example_env\<lparr>item := (\<lambda>i. SendResult False)\<rparr>) example_scraper) = []
   \<and> watermark (snd (run (example_env\<lparr>item := (\<lambda>i. SendResult False)\<rparr>) example_scraper))
        = Some (Iso 0)"
proof -
  have h: "current_state example_scraper = Some example_state"
    by (simp add: run_eval example_defs)
  have s1: "sent_lines (run_log example_env example_scraper) \<noteq> []"
    by (simp add: run_eval example_defs)
  have s2: "sent_lines (run_log (example_env\<lparr>item := (\<lambda>i. SendResult False)\<rparr>) example_scraper) = []"
    by (simp add: run_eval example_defs)
  have c: "clock (snd (run example_env example_scraper)) = 3000005"
    by (simp add: run_eval example_defs)
  have t: "clock (snd (test_connection example_env example_scraper)) = 5"
          "get_last_check_datetime 5 (state_manager example_scraper) = 0"
    by (simp_all add: run_eval example_defs)
  have w: "watermark example_scraper = Some (Iso 0)"
    by (simp add: run_eval example_defs)
  show ?thesis
    using h s1 s2 watermark_set_after_delivery[OF h, of example_env]
      watermark_set_after_delivery[OF h, of "example_env\<lparr>item := (\<lambda>i. SendResult False)\<rparr>"]
    by (simp add: run_eval example_defs)
qed

subsection \<open>Saving the state (C5)\<close>

text \<open>
  Counterexample to C5 as stated. When the SMTP connection test fails, the run returns
  \<^verbatim>\<open>False\<close> before the fetch and \<^verbatim>\<open>save_state\<close> is not called at all.
\<close>

theorem precheck_abort_counterexample:
  "\<not> fst (run (example_env\<lparr>smtp_ok := False\<rparr>) example_scraper)
   \<and> save_lines (run_log (example_env\<lparr>smtp_ok := False\<rparr>) example_scraper) = []"
  by (simp add: run_eval example_defs)

text \<open>
  C5, amended. A run that passes the connection test calls \<^verbatim>\<open>save_state\<close> exactly once,
  on every path (no articles, articles processed, exception), and what it writes is the
  state the run ends with: the save comes after all mutations, and nothing is written per
  article. A run whose connection test fails returns \<^verbatim>\<open>False\<close>, writes nothing and leaves
  the state as it was.
\<close>

theorem state_saved_once:
  assumes "current_state sc = Some s"
  shows "(fst (test_connection env sc) \<longrightarrow>
            (\<exists>s'. current_state (snd (run env sc)) = Some s'
                  \<and> save_lines (run_log env sc) = [if disk_ok env then StateSaved s' else SaveFailed]))
       \<and> (\<not> fst (test_connection env sc) \<longrightarrow>
            \<not> fst (run env sc)
            \<and> save_lines (run_log env sc) = []
            \<and> current_state (snd (run env sc)) = Some s)"
proof -
  from run_errors_count[of env sc] assms
  obtain s' where s': "current_state (snd (run env sc)) = Some s'"
    by (cases "current_state (snd (run env sc))") auto
  have a: "\<not> fst (test_connection env sc) \<Longrightarrow> current_state (snd (run env sc)) = Some s"
    using assms by (simp add: run_state_manager current_state_def)
  show ?thesis
    using s' a by (simp add: run_save_lines run_result)
qed

text \<open>
  The theorem at a run that delivers two articles and at a run whose connection test
  fails.
\<close>

theorem state_saved_once_witness:
  "current_state example_scraper = Some example_state
   \<and> fst (test_connection example_env example_scraper)
   \<and> save_lines (run_log example_env example_scraper)
        = [StateSaved \<lparr> last_check_timestamp = Iso 3000005, processed_post_ids = {1, 2, 3},
                         total_posts_processed = 3, last_successful_run = Iso 3000005,
                         errors_count = 0 \<rparr>]
   \<and> \<not> fst (test_connection (example_env\<lparr>smtp_ok := False\<rparr>) example_scraper)
   \<and> current_state (snd (run (example_env\<lparr>smtp_ok := False\<rparr>) example_scraper)) = Some example_state"
proof -
  have h: "current_state example_scraper = Some example_state"
    by (simp add: run_eval example_defs)
  have t1: "fst (test_connection example_env example_scraper)"
    and t2: "\<not> fst (test_connection (example_env\<lparr>smtp_ok := False\<rparr>) example_scraper)"
    by (simp_all add: run_eval example_defs)
  have f: "current_state (snd (run example_env example_scraper))
             = Some \<lparr> last_check_timestamp = Iso 3000005, processed_post_ids = {1, 2, 3},
                      total_posts_processed = 3, last_successful_run = Iso 3000005,
                      errors_count = 0 \<rparr>"
    by (simp add: run_eval example_defs insert_commute)
  have d: "disk_ok example_env" by (simp add: example_defs)
  show ?thesis
    using h t1 t2 f d state_saved_once[OF h, of example_env]
      state_saved_once[OF h, of "example_env\<lparr>smtp_ok := False\<rparr>"]
    by simp
qed

subsection \<open>Runs in which every delivery fails (C7)\<close>

text \<open>
  C7. In a run that passed the connection test and whose fetch returned posts, if every
  delivery fails (the send returns \<^verbatim>\<open>False\<close> or the processing of the article raises),
  the run returns \<^verbatim>\<open>True\<close> and the processed ids, the watermark and \<open>errors_count\<close> are
  what they were; when there was at least one article to deliver, the whole state is
  unchanged.
\<close>

theorem all_deliveries_fail_state_unchanged:
  assumes "fst (test_connection env sc)"
    and "fetch env = Response 200 posts"
    and "\<forall>i. \<not> delivered (app_config sc) (item env i)"
    and "current_state sc = Some s"
  shows "fst (run env sc)
       \<and> (\<exists>s'. current_state (snd (run env sc)) = Some s'
               \<and> processed_post_ids s' = processed_post_ids s
               \<and> last_check_timestamp s' = last_check_timestamp s
               \<and> errors_count s' = errors_count s)
       \<and> (candidates env sc \<noteq> [] \<longrightarrow> current_state (snd (run env sc)) = Some s)"
proof -
  have ns: "sent_lines (run_log env sc) = []"
    using assms(3) by (rule run_all_fail)
  have r: "fst (run env sc)"
    using assms(1,2) by (simp add: run_result)
  have sm: "state_manager (snd (run env sc)) =
              (if candidates env sc = []
               then mark_successful_run (clock (fetched env sc)) (state_manager sc)
               else state_manager sc)"
    using assms(1,2) ns by (simp add: run_state_manager)
  show ?thesis
    using r sm assms(4)
    by (simp add: current_state_def state_mark_successful_run)
qed

text \<open>
  The theorem at a run with two articles to deliver: the processing of the first raises,
  the send of the second fails.
\<close>

theorem all_deliveries_fail_state_unchanged_witness:
  "fst (test_connection (example_env\<lparr>item := (\<lambda>i. if i = 1 then ProcessingRaises else SendResult False)\<rparr>)
          example_scraper)
   \<and> (\<forall>i. \<not> delivered (app_config example_scraper)
               (item (example_env\<lparr>item := (\<lambda>i. if i = 1 then ProcessingRaises else SendResult False)\<rparr>) i))
   \<and> length (candidates (example_env\<lparr>item := (\<lambda>i. if i = 1 then ProcessingRaises else SendResult False)\<rparr>)
                 example_scraper) = 2
   \<and> fst (run (example_env\<lparr>item := (\<lambda>i. if i = 1 then ProcessingRaises else SendResult False)\<rparr>)
             example_scraper)
   \<and> current_state (snd (run (example_env\<lparr>item := (\<lambda>i. if i = 1 then ProcessingRaises else SendResult False)\<rparr>)
                            example_scraper)) = Some example_state"
proof -
  let ?E = "example_env\<lparr>item := (\<lambda>i. if i = 1 then ProcessingRaises else SendResult False)\<rparr>"
  have h1: "fst (test_connection ?E example_scraper)"
    by (simp add: run_eval example_defs)
  have h2: "fetch ?E = Response 200 [example_post 1, example_post 2, example_post 3]"
    by (simp add: example_defs)
  have h3: "\<forall>i. \<not> delivered (app_config example_scraper) (item ?E i)"
    by (simp add: run_eval example_defs)
  have h4: "current_state example_scraper = Some example_state"
    by (simp add: run_eval example_defs)
  have c: "length (candidates ?E example_scraper) = 2"
    by (simp add: candidates_def run_eval example_defs)
  then have c': "candidates ?E example_scraper \<noteq> []" by auto
  show ?thesis
    using h1 h3 c c' all_deliveries_fail_state_unchanged[OF h1 h2 h3 h4]
    by simp
qed

subsection \<open>Trimming the processed ids (C3)\<close>

lemma take_rev_sorted_highest:
  assumes "sorted xs" and "distinct xs"
    and "x \<in> set (take k (rev xs))" and "y \<in> set xs - set (take k (rev xs))"
  shows "y < (x::int)"
proof -
  have split: "rev xs = take k (rev xs) @ drop k (rev xs)" by simp
  have "sorted_wrt (\<ge>) (rev xs)"
    using assms(1) by (simp add: sorted_wrt_rev)
  then have "sorted_wrt (\<ge>) (take k (rev xs) @ drop k (rev xs))" by simp
  then have le: "\<forall>a \<in> set (take k (rev xs)). \<forall>b \<in> set (drop k (rev xs)). a \<ge> b"
    by (simp only: sorted_wrt_append) blast
  have "set xs = set (take k (rev xs)) \<union> set (drop k (rev xs))"
    by (metis set_append set_rev split)
  with assms(4) have y: "y \<in> set (drop k (rev xs))" by auto
  with le assms(3) have "y \<le> x" by auto
  moreover from assms(3,4) have "y \<noteq> x" by auto
  ultimately show ?thesis by simp
qed

text \<open>
  Counterexample to C3 as stated. With ceiling 2 and the three ids 1, 2, 3 the guard
  \<^verbatim>\<open>len(ids) > keep_recent * 1.5\<close> is false (3 is not above 3.0), nothing is trimmed and
  three ids remain, more than the ceiling.
\<close>

theorem cleanup_no_trim_counterexample:
  "state (cleanup_old_processed_ids 2 \<lparr>state = Some (example_state\<lparr>processed_post_ids := {1, 2, 3}\<rparr>)\<rparr>)
     = Some (example_state\<lparr>processed_post_ids := {1, 2, 3}\<rparr>)
   \<and> card (processed_post_ids (example_state\<lparr>processed_post_ids := {1, 2, 3}\<rparr>)) = 3
   \<and> \<not> (3::int) \<le> 2"
  by (simp add: cleanup_old_processed_ids_def)

text \<open>
  C3, amended. For a ceiling \<open>C \<ge> 0\<close>: when the number of ids exceeds \<open>1.5 * C\<close>, the ids
  kept are exactly the \<open>C\<close> highest of the set (a subset of size \<open>C\<close>, every kept id
  above every discarded one); otherwise the set is unchanged. So after the call the size
  is at most \<open>1.5 * C\<close>, not at most \<open>C\<close>. No other field of the state changes.
\<close>

theorem cleanup_keeps_highest:
  assumes "finite (processed_post_ids s)" and "0 \<le> C"
    and "state (cleanup_old_processed_ids C \<lparr>state = Some s\<rparr>) = Some s'"
  shows "(2 * int (card (processed_post_ids s)) > 3 * C \<longrightarrow>
            processed_post_ids s' \<subseteq> processed_post_ids s
          \<and> int (card (processed_post_ids s')) = C
          \<and> (\<forall>x \<in> processed_post_ids s'. \<forall>y \<in> processed_post_ids s - processed_post_ids s'. y < x))
       \<and> (2 * int (card (processed_post_ids s)) \<le> 3 * C \<longrightarrow> s' = s)
       \<and> 2 * int (card (processed_post_ids s')) \<le> 3 * C
       \<and> s' = s\<lparr>processed_post_ids := processed_post_ids s'\<rparr>"
proof (cases "2 * int (card (processed_post_ids s)) > 3 * C")
  case False
  with assms(3) have "s' = s" by (simp add: state_cleanup)
  with False show ?thesis by simp
next
  case True
  let ?xs = "sorted_list_of_set (processed_post_ids s)"
  from True assms(3)
  have s': "s' = s\<lparr>processed_post_ids := set (take (nat C) (rev ?xs))\<rparr>"
    using assms(2) by (simp add: state_cleanup py_prefix_def)
  have ids: "processed_post_ids s' = set (take (nat C) (rev ?xs))"
    by (simp add: s')
  have len: "length ?xs = card (processed_post_ids s)"
    using assms(1) by simp
  have sub: "processed_post_ids s' \<subseteq> processed_post_ids s"
    using assms(1) set_take_subset[of "nat C" "rev ?xs"] by (simp add: ids)
  have "distinct (take (nat C) (rev ?xs))" by simp
  then have "card (processed_post_ids s') = length (take (nat C) (rev ?xs))"
    unfolding ids by (rule distinct_card)
  also have "\<dots> = nat C"
    using True assms(2) len by simp
  finally have card: "int (card (processed_post_ids s')) = C"
    using assms(2) by simp
  have high: "\<forall>x \<in> processed_post_ids s'. \<forall>y \<in> processed_post_ids s - processed_post_ids s'. y < x"
  proof (intro ballI)
    fix x y
    assume "x \<in> processed_post_ids s'" and "y \<in> processed_post_ids s - processed_post_ids s'"
    then have "x \<in> set (take (nat C) (rev ?xs))" and "y \<in> set ?xs - set (take (nat C) (rev ?xs))"
      using assms(1) by (simp_all add: ids)
    with take_rev_sorted_highest[of ?xs x "nat C" y] show "y < x" by simp
  qed
  show ?thesis
    using True sub card high assms(2) s' by simp
qed

text \<open>
  The theorem at ceiling 2 with four ids (trimmed to the two highest) and with three ids
  (left alone).
\<close>

theorem cleanup_keeps_highest_witness:
  "finite (processed_post_ids (example_state\<lparr>processed_post_ids := {1, 2, 3, 4}\<rparr>))
   \<and> state (cleanup_old_processed_ids 2 \<lparr>state = Some (example_state\<lparr>processed_post_ids := {1, 2, 3, 4}\<rparr>)\<rparr>)
        = Some (example_state\<lparr>processed_post_ids := {3, 4}\<rparr>)
   \<and> card {3, 4 :: int} = 2
   \<and> finite (processed_post_ids (example_state\<lparr>processed_post_ids := {1, 2, 3}\<rparr>))
   \<and> state (cleanup_old_processed_ids 2 \<lparr>state = Some (example_state\<lparr>processed_post_ids := {1, 2, 3}\<rparr>)\<rparr>)
        = Some (example_state\<lparr>processed_post_ids := {1, 2, 3}\<rparr>)"
proof -
  let ?s4 = "example_state\<lparr>processed_post_ids := {1, 2, 3, 4}\<rparr>"
  let ?s3 = "example_state\<lparr>processed_post_ids := {1, 2, 3}\<rparr>"
  have f4: "finite (processed_post_ids ?s4)" and f3: "finite (processed_post_ids ?s3)"
    by simp_all
  have c: "(0::int) \<le> 2" by simp
  have r4: "state (cleanup_old_processed_ids 2 \<lparr>state = Some ?s4\<rparr>)
              = Some (example_state\<lparr>processed_post_ids := {3, 4}\<rparr>)"
    by (simp add: cleanup_old_processed_ids_def py_prefix_def Let_def insert_commute)
  have r3: "state (cleanup_old_processed_ids 2 \<lparr>state = Some ?s3\<rparr>) = Some ?s3"
    by (simp add: cleanup_old_processed_ids_def)
  show ?thesis
    using f4 f3 r4 r3 cleanup_keeps_highest[OF f4 c r4] cleanup_keeps_highest[OF f3 c r3]
    by simp
qed

subsection \<open>Marking a post processed (C8)\<close>

text \<open>
  C8. Marking an id that is already in the processed set changes neither the set nor the
  counter; marking a fresh id adds it and increments the counter by exactly one; marking
  the same id twice equals marking it once.
\<close>

theorem mark_post_processed_idempotent:
  "(pid \<in> processed_post_ids s \<longrightarrow>
      mark_post_processed pid \<lparr>state = Some s\<rparr> = \<lparr>state = Some s\<rparr>)
   \<and> (pid \<notin> processed_post_ids s \<longrightarrow>
      mark_post_processed pid \<lparr>state = Some s\<rparr> =
        \<lparr>state = Some (s\<lparr>processed_post_ids := insert pid (processed_post_ids s),
                         total_posts_processed := total_posts_processed s + 1\<rparr>)\<rparr>)
   \<and> mark_post_processed pid (mark_post_processed pid sm) = mark_post_processed pid sm"
  by (cases "state sm") (simp_all add: mark_post_processed_def)

text \<open>
  The theorem at an id that is in the set and at one that is not.
\<close>

theorem mark_post_processed_idempotent_witness:
  "2 \<in> processed_post_ids example_state
   \<and> mark_post_processed 2 \<lparr>state = Some example_state\<rparr> = \<lparr>state = Some example_state\<rparr>
   \<and> 7 \<notin> processed_post_ids example_state
   \<and> mark_post_processed 7 \<lparr>state = Some example_state\<rparr> =
        \<lparr>state = Some (example_state\<lparr>processed_post_ids := {7, 2}, total_posts_processed := 2\<rparr>)\<rparr>
   \<and> mark_post_processed 7 (mark_post_processed 7 \<lparr>state = Some example_state\<rparr>)
        = mark_post_processed 7 \<lparr>state = Some example_state\<rparr>"
proof -
  have h1: "2 \<in> processed_post_ids example_state" and h2: "7 \<notin> processed_post_ids example_state"
    and t: "total_posts_processed example_state = 1" and i: "processed_post_ids example_state = {2}"
    by (simp_all add: example_state_def)
  show ?thesis
    using h1 h2 mark_post_processed_idempotent[where pid = 2 and s = example_state
        and sm = "\<lparr>state = Some example_state\<rparr>"]
      mark_post_processed_idempotent[where pid = 7 and s = example_state
        and sm = "\<lparr>state = Some example_state\<rparr>"]
    by (simp add: mark_post_processed_def example_state_def)
qed

subsection \<open>Loading the state file (C6)\<close>

lemma load_state_fresh:
  "load_state NoFile now sm = Inr (sm\<lparr>state := Some (create_initial_state now)\<rparr>)"
  "load_state InvalidJson now sm = Inr (sm\<lparr>state := Some (create_initial_state now)\<rparr>)"
  by (simp_all add: load_state_def)

text \<open>
  C6. The claim says that \<^verbatim>\<open>load\<close> never raises on a missing or malformed state file.
  The code recovers when \<^verbatim>\<open>json.load\<close> raises \<^verbatim>\<open>JSONDecodeError\<close>, but a state file that
  holds the JSON array \<^verbatim>\<open>[]\<close> makes \<^verbatim>\<open>load_state\<close> raise \<^verbatim>\<open>AttributeError\<close>, and a file whose
  bytes are not UTF-8 makes it raise \<^verbatim>\<open>UnicodeDecodeError\<close>: neither is in the \<^verbatim>\<open>except\<close>
  clause.
\<close>

theorem load_state_raises_on_non_object:
  "load_state (Json (JArray [])) 0 \<lparr>state = None\<rparr> = Inl AttributeError
   \<and> load_state NotUtf8 0 \<lparr>state = None\<rparr> = Inl UnicodeDecodeError
   \<and> load_state InvalidJson 0 \<lparr>state = None\<rparr> = Inr \<lparr>state = Some (create_initial_state 0)\<rparr>"
  by (simp add: load_state_def)

subsection \<open>Watermarks that do not parse (C9)\<close>

text \<open>
  C9. When the stored watermark text is empty or does not parse, \<^verbatim>\<open>get_last_check_datetime\<close>
  returns the current time minus one hour (not the current time), and that is the lower
  bound of the fetch of the next run; deserializing a JSON object without the field
  \<^verbatim>\<open>last_check_timestamp\<close> gives exactly the empty text.
\<close>

theorem unparsable_watermark_falls_back_one_hour:
  "(last_check_timestamp s = Other junk \<longrightarrow>
      get_last_check_datetime now \<lparr>state = Some s\<rparr> = now - hours 1
    \<and> get_last_check_datetime now \<lparr>state = Some s\<rparr> \<noteq> now)
   \<and> (current_state sc = Some s \<and> last_check_timestamp s = Other junk \<and> fst (test_connection env sc) \<longrightarrow>
      fetch_lines (run_log env sc)
        = [(clock (snd (test_connection env sc)),
            SearchingSince (clock (snd (test_connection env sc)) - hours 1))])
   \<and> (d_last_check_timestamp data = None \<longrightarrow>
        last_check_timestamp (from_dict data) = Other []
      \<and> load_state (Json (JObject data)) now sm = Inr (sm\<lparr>state := Some (from_dict data)\<rparr>))"
proof -
  have g: "\<And>sm t. state sm = Some s \<Longrightarrow> last_check_timestamp s = Other junk \<Longrightarrow>
             get_last_check_datetime t sm = t - hours 1"
    by (simp add: get_last_check_datetime_def truthy_text_def fromisoformat_def)
  show ?thesis
    by (auto simp add: g run_fetch_lines current_state_def hours_def from_dict_def dict_get_def
                       load_state_def)
qed

text \<open>
  The theorem at a text that does not parse, at a decoded object without the field, and
  at a run that starts from the empty text.
\<close>

theorem unparsable_watermark_falls_back_one_hour_witness:
  "last_check_timestamp (example_state\<lparr>last_check_timestamp := Other ''yesterday''\<rparr>) = Other ''yesterday''
   \<and> get_last_check_datetime 7200000000
        \<lparr>state = Some (example_state\<lparr>last_check_timestamp := Other ''yesterday''\<rparr>)\<rparr> = 3600000000
   \<and> get_last_check_datetime 7200000000 \<lparr>state = Some (from_dict
        \<lparr>d_last_check_timestamp = None, d_processed_post_ids = Some [1, 2],
          d_total_posts_processed = Some 2, d_last_successful_run = None, d_errors_count = None\<rparr>)\<rparr>
        = 3600000000
   \<and> fetch_lines (run_log example_env
        (example_scraper\<lparr>state_manager := \<lparr>state = Some (example_state\<lparr>last_check_timestamp := Other []\<rparr>)\<rparr>\<rparr>))
        = [(5, SearchingSince (5 - 3600000000))]"
proof -
  let ?s = "example_state\<lparr>last_check_timestamp := Other ''yesterday''\<rparr>"
  let ?d = "\<lparr>d_last_check_timestamp = None, d_processed_post_ids = Some [1, 2],
              d_total_posts_processed = Some 2, d_last_successful_run = None, d_errors_count = None\<rparr>"
  let ?sc = "example_scraper\<lparr>state_manager := \<lparr>state = Some (example_state\<lparr>last_check_timestamp := Other []\<rparr>)\<rparr>\<rparr>"
  have h1: "last_check_timestamp ?s = Other ''yesterday''" by simp
  have h2: "current_state ?sc = Some (example_state\<lparr>last_check_timestamp := Other []\<rparr>)"
           "last_check_timestamp (example_state\<lparr>last_check_timestamp := Other []\<rparr>) = Other []"
           "fst (test_connection example_env ?sc)"
           "clock (snd (test_connection example_env ?sc)) = 5"
    by (simp_all add: run_eval example_defs)
  have h3: "d_last_check_timestamp ?d = None" by simp
  show ?thesis
    using h1 h2 h3
      unparsable_watermark_falls_back_one_hour[where s = "?s" and junk = "''yesterday''"
        and now = "7200000000"]
      unparsable_watermark_falls_back_one_hour[where s = "from_dict ?d" and junk = "[]"
        and now = "7200000000" and data = "?d"]
      unparsable_watermark_falls_back_one_hour[where junk = "[]" and sc = "?sc" and env = example_env
        and s = "example_state\<lparr>last_check_timestamp := Other []\<rparr>"]
    by (simp add: hours_def)
qed

subsection \<open>Monotonicity of the watermark (C4)\<close>

lemma run_clock_mono: "clock sc \<le> clock (snd (run env sc))"
proof (cases "fst (test_connection env sc)")
  case True
  have "clock sc \<le> clock (snd (test_connection env sc))" by (rule test_connection_clock)
  also have "\<dots> \<le> clock (snd (test_connection env sc)) + int (http_elapsed env) +
     (case fetch env of Response st body \<Rightarrow> int (request_delay (app_config sc)) | _ \<Rightarrow> 0)"
    by (simp split: http_outcome.splits)
  also have "\<dots> \<le> clock (snd (run env sc))" using True by (rule run_clock)
  finally show ?thesis .
next
  case False
  then show ?thesis by (simp add: run_eq test_connection_clock)
qed

lemma run_sequence_snoc:
  "run_sequence (envs @ [env]) sc = snd (run env (run_sequence envs sc))"
  by (induction envs arbitrary: sc) simp_all

lemma watermark_step:
  assumes "watermark sc = Some (Iso t)" and "t \<le> clock sc"
  shows "\<exists>t'. watermark (snd (run env sc)) = Some (Iso t') \<and> t \<le> t' \<and> t' \<le> clock (snd (run env sc))"
  using assms run_clock_mono[of sc env]
  by (auto simp add: run_watermark isoformat_def)

lemma watermark_sequence:
  assumes "watermark sc = Some (Iso t)" and "t \<le> clock sc"
  shows "\<exists>t'. watermark (run_sequence envs sc) = Some (Iso t') \<and> t \<le> t'
              \<and> t' \<le> clock (run_sequence envs sc)"
  using assms
proof (induction envs arbitrary: sc t)
  case Nil
  then show ?case by simp
next
  case (Cons env envs)
  from watermark_step[OF Cons.prems, of env]
  obtain t1 where t1: "watermark (snd (run env sc)) = Some (Iso t1)" "t \<le> t1"
      "t1 \<le> clock (snd (run env sc))"
    by blast
  from Cons.IH[OF t1(1) t1(3)]
  obtain t2 where "watermark (run_sequence envs (snd (run env sc))) = Some (Iso t2)" "t1 \<le> t2"
      "t2 \<le> clock (run_sequence envs (snd (run env sc)))"
    by blast
  with t1(2) show ?case by auto
qed

text \<open>
  Counterexample to C4 as stated. A state whose watermark is later than the clock (a
  state file written under a clock that ran ahead, for instance) is moved back by a run
  that delivers an article: the run stores its own clock reading.
\<close>

theorem watermark_regress_counterexample:
  "watermark_time future_scraper = Some 1000000000000000
   \<and> watermark_time (snd (run example_env future_scraper)) = Some 3000005
   \<and> \<not> (1000000000000000 :: int) \<le> 3000005"
  by (simp add: run_eval example_defs)

text \<open>
  C4, amended. From a state whose watermark parses and is not later than the clock (as it
  is after \<^verbatim>\<open>_create_initial_state\<close> and after every run), along any sequence of runs the
  watermark after run \<open>N + 1\<close> is at or after the watermark after run \<open>N\<close>, and again not
  later than the clock; a run in which nothing is delivered leaves it unchanged.
\<close>

theorem watermark_monotone:
  assumes "watermark sc = Some (Iso t)" and "t \<le> clock sc"
  shows "\<exists>t1 t2. watermark_time (run_sequence envs sc) = Some t1
               \<and> watermark_time (run_sequence (envs @ [env]) sc) = Some t2
               \<and> t1 \<le> t2
               \<and> t2 \<le> clock (run_sequence (envs @ [env]) sc)
               \<and> (sent_lines (run_log env (run_sequence envs sc)) = [] \<longrightarrow>
                    watermark (run_sequence (envs @ [env]) sc) = watermark (run_sequence envs sc))"
proof -
  from watermark_sequence[OF assms, of envs]
  obtain t1 where t1: "watermark (run_sequence envs sc) = Some (Iso t1)"
      "t1 \<le> clock (run_sequence envs sc)"
    by blast
  from watermark_step[OF t1, of env]
  obtain t2 where t2: "watermark (snd (run env (run_sequence envs sc))) = Some (Iso t2)"
      "t1 \<le> t2" "t2 \<le> clock (snd (run env (run_sequence envs sc)))"
    by blast
  show ?thesis
    using t1 t2
    by (simp add: run_sequence_snoc watermark_time_def fromisoformat_def run_watermark)
qed

text \<open>
  The theorem at two runs: in the first every send fails, the second delivers two
  articles.
\<close>

theorem watermark_monotone_witness:
  "watermark example_scraper = Some (Iso 0) \<and> (0::int) \<le> clock example_scraper
   \<and> watermark_time (run_sequence [example_env\<lparr>item := (\<lambda>i. SendResult False)\<rparr>] example_scraper) = Some 0
   \<and> watermark_time (run_sequence ([example_env\<lparr>item := (\<lambda>i. SendResult False)\<rparr>] @ [example_env])
                        example_scraper) = Some 6000005"
proof -
  have h1: "watermark example_scraper = Some (Iso 0)" and h2: "(0::int) \<le> clock example_scraper"
    by (simp_all add: run_eval example_defs)
  have v1: "watermark_time (run_sequence [example_env\<lparr>item := (\<lambda>i. SendResult False)\<rparr>] example_scraper) = Some 0"
    by (simp add: run_eval example_defs)
  have v2: "watermark_time (run_sequence ([example_env\<lparr>item := (\<lambda>i. SendResult False)\<rparr>] @ [example_env])
                        example_scraper) = Some 6000005"
    by (simp add: run_eval example_defs)
  show ?thesis
    using h1 h2 v1 v2
      watermark_monotone[OF h1 h2, of "[example_env\<lparr>item := (\<lambda>i. SendResult False)\<rparr>]" example_env]
    by simp
qed

subsection \<open>Feed items with a falsy id (C10)\<close>

lemma new_articles_loop_filter:
  "new_articles_loop sc (filter (\<lambda>p. post_id p \<noteq> Some 0) posts) = new_articles_loop sc posts"
  by (induction posts) (simp_all add: py_not_id_def Let_def split: option.splits)

lemma new_articles_loop_null:
  "new_articles_loop sc (map null_zero_id posts) = new_articles_loop sc posts"
  by (induction posts) (simp_all add: py_not_id_def null_zero_id_def Let_def split: option.splits)

lemma new_articles_loop_ids:
  "m \<in> set (new_articles_loop sc posts) \<Longrightarrow> \<exists>n. m_id m = Some n \<and> n \<noteq> 0"
  by (induction posts)
     (auto simp add: py_not_id_def extract_post_metadata_def Let_def split: option.splits if_splits)

lemma env_fetch_irrelevant:
  "test_connection (env\<lparr>fetch := x\<rparr>) = test_connection env"
  "save_state (env\<lparr>fetch := x\<rparr>) = save_state env"
  "process_one_article (env\<lparr>fetch := x\<rparr>) = process_one_article env"
  by (simp_all add: fun_eq_iff test_connection_def save_state_def process_one_article_def
               split: option.splits item_outcome.splits)

lemma process_loop_fetch_irrelevant:
  "process_loop (env\<lparr>fetch := x\<rparr>) n i arts cnt sc = process_loop env n i arts cnt sc"
  by (induction arts arbitrary: i cnt sc)
     (simp_all add: process_loop_Cons env_fetch_irrelevant del: process_loop.simps(2))

lemma finish_fetch_irrelevant:
  "finish_articles (env\<lparr>fetch := x\<rparr>) = finish_articles env"
  "finish_no_articles (env\<lparr>fetch := x\<rparr>) = finish_no_articles env"
  "handle_exception (env\<lparr>fetch := x\<rparr>) = handle_exception env"
  by (simp_all add: fun_eq_iff finish_articles_def finish_no_articles_def handle_exception_def
        process_articles_def process_loop_fetch_irrelevant env_fetch_irrelevant)

lemma run_same_candidates:
  assumes "fetch env = Response st posts"
    and "new_articles_loop (authenticate_step (snd (test_connection env sc))) posts'
         = new_articles_loop (authenticate_step (snd (test_connection env sc))) posts"
  shows "run (env\<lparr>fetch := Response st posts'\<rparr>) sc = run env sc"
  using assms
  by (simp add: run_eq env_fetch_irrelevant finish_fetch_irrelevant get_new_articles_eq Let_def)

lemma process_one_article_sent_ids:
  "\<exists>ys. sent_lines (log_lines (snd (process_one_article env n i a cnt sc)))
          = sent_lines (log_lines sc) @ ys \<and> set ys \<subseteq> {ArticleSent (m_id a)}"
  by (auto simp add: process_one_article_log split: item_outcome.splits if_splits)

lemma process_loop_sent_ids:
  "\<exists>ys. sent_lines (log_lines (snd (process_loop env n i arts cnt sc)))
          = sent_lines (log_lines sc) @ ys
        \<and> set ys \<subseteq> (\<lambda>a. ArticleSent (m_id a)) ` set arts"
proof (induction arts arbitrary: i cnt sc)
  case Nil
  show ?case by simp
next
  case (Cons a rest)
  let ?r = "process_one_article env n i a cnt sc"
  from process_one_article_sent_ids[of env n i a cnt sc]
  obtain ys where ys: "sent_lines (log_lines (snd ?r)) = sent_lines (log_lines sc) @ ys"
      "set ys \<subseteq> {ArticleSent (m_id a)}"
    by blast
  from Cons.IH[of "i + 1" "fst ?r" "snd ?r"]
  obtain zs where zs: "sent_lines (log_lines (snd (process_loop env n (i + 1) rest (fst ?r) (snd ?r))))
                         = sent_lines (log_lines (snd ?r)) @ zs"
      "set zs \<subseteq> (\<lambda>a. ArticleSent (m_id a)) ` set rest"
    by blast
  have "sent_lines (log_lines (snd (process_loop env n i (a # rest) cnt sc)))
          = sent_lines (log_lines sc) @ (ys @ zs)"
    using ys(1) zs(1) by (simp add: process_loop_Cons del: process_loop.simps(2))
  moreover have "set (ys @ zs) \<subseteq> (\<lambda>a. ArticleSent (m_id a)) ` set (a # rest)"
    using ys(2) zs(2) by auto
  ultimately show ?case by blast
qed

lemma run_sent_ids:
  "set (sent_lines (run_log env sc)) \<subseteq> (\<lambda>a. ArticleSent (m_id a)) ` set (candidates env sc)"
proof (cases "sent_lines (run_log env sc) = []")
  case True
  then show ?thesis by simp
next
  case False
  with run_sent_count[of env sc]
  have pre: "fst (test_connection env sc)" and f: "fetch env \<noteq> UnexpectedException"
    and c: "candidates env sc \<noteq> []"
    by (auto split: if_splits)
  let ?r = "process_articles env (candidates env sc) (fetched env sc)"
  have "sent_lines (log_lines (snd (run env sc)))
               = sent_lines (log_lines sc) @ sent_lines (run_log env sc)"
    by (simp add: run_log_append flip: sent_lines_append)
  moreover have "sent_lines (log_lines (snd (run env sc))) = sent_lines (log_lines (snd ?r))"
    using pre f c
    by (cases rule: run_cases[of env sc]) (simp_all add: finish_articles_facts(4) split: option.splits)
  moreover from process_loop_sent_ids[of env "length (candidates env sc)" 1 "candidates env sc" 0 "fetched env sc"]
  obtain ys where "sent_lines (log_lines (snd ?r)) = sent_lines (log_lines (fetched env sc)) @ ys"
      "set ys \<subseteq> (\<lambda>a. ArticleSent (m_id a)) ` set (candidates env sc)"
    by (auto simp: process_articles_def)
  moreover have "sent_lines (log_lines (fetched env sc)) = sent_lines (log_lines sc)"
    by (simp add: fetched_log)
  ultimately show ?thesis by simp
qed

lemma candidates_ids:
  "m \<in> set (candidates env sc) \<Longrightarrow> \<exists>n. m_id m = Some n \<and> n \<noteq> 0"
  by (cases "fetch env")
     (auto simp add: candidates_def get_new_articles_result dest: new_articles_loop_ids split: if_splits)

text \<open>
  C10. A feed item whose id is the integer 0 is skipped as one without id is: the run on
  a feed is the run on the feed with those items removed, and the run on the feed with
  their ids set to null; no article to deliver has the id 0 or none, and no delivery of
  the id 0 is ever logged.
\<close>

theorem zero_id_skipped:
  assumes "fetch env = Response status posts"
  shows "run (env\<lparr>fetch := Response status (filter (\<lambda>p. post_id p \<noteq> Some 0) posts)\<rparr>) sc = run env sc
       \<and> run (env\<lparr>fetch := Response status (map null_zero_id posts)\<rparr>) sc = run env sc
       \<and> (\<forall>m \<in> set (candidates env sc). m_id m \<noteq> Some 0 \<and> m_id m \<noteq> None)
       \<and> ArticleSent (Some 0) \<notin> set (sent_lines (run_log env sc))"
proof (intro conjI)
  show "run (env\<lparr>fetch := Response status (filter (\<lambda>p. post_id p \<noteq> Some 0) posts)\<rparr>) sc = run env sc"
    using assms by (rule run_same_candidates) (rule new_articles_loop_filter)
  show "run (env\<lparr>fetch := Response status (map null_zero_id posts)\<rparr>) sc = run env sc"
    using assms by (rule run_same_candidates) (rule new_articles_loop_null)
  show c: "\<forall>m \<in> set (candidates env sc). m_id m \<noteq> Some 0 \<and> m_id m \<noteq> None"
    by (auto dest: candidates_ids)
  show "ArticleSent (Some 0) \<notin> set (sent_lines (run_log env sc))"
  proof
    assume "ArticleSent (Some 0) \<in> set (sent_lines (run_log env sc))"
    with run_sent_ids[of env sc]
    obtain a where "a \<in> set (candidates env sc)" and "ArticleSent (Some 0) = ArticleSent (m_id a)"
      by blast
    with c show False by auto
  qed
qed

text \<open>
  The theorem at a feed of two posts, the first with id 0.
\<close>

theorem zero_id_skipped_witness:
  "fetch (example_env\<lparr>fetch := Response 200 [example_post 0, example_post 1]\<rparr>)
     = Response 200 [example_post 0, example_post 1]
   \<and> run (example_env\<lparr>fetch := Response 200 [example_post 0, example_post 1]\<rparr>) example_scraper
     = run (example_env\<lparr>fetch := Response 200 [example_post 1]\<rparr>) example_scraper
   \<and> sent_lines (run_log (example_env\<lparr>fetch := Response 200 [example_post 0, example_post 1]\<rparr>)
                          example_scraper) = [ArticleSent (Some 1)]
   \<and> map_option processed_post_ids
        (current_state (snd (run (example_env\<lparr>fetch := Response 200 [example_post 0, example_post 1]\<rparr>)
                                 example_scraper))) = Some {1, 2}"
proof -
  let ?E = "example_env\<lparr>fetch := Response 200 [example_post 0, example_post 1]\<rparr>"
  have h: "fetch ?E = Response 200 [example_post 0, example_post 1]" by simp
  have v: "sent_lines (run_log ?E example_scraper) = [ArticleSent (Some 1)]"
     "map_option processed_post_ids (current_state (snd (run ?E example_scraper))) = Some {1, 2}"
    by (simp_all add: run_eval example_defs)
  show ?thesis
    using h v zero_id_skipped[OF h, of example_scraper]
    by (simp add: example_post_def)
qed

end
